theory Spec2Isabelle
  imports Main "HOL-Library.AList"
begin

section \<open>Data model\<close>

text \<open>
  Go strings are byte strings: \<open>string\<close> (a list of 8-bit characters) with \<open>length\<close>
  counting bytes, as Go's \<open>len\<close> does. A Go pointer that may be nil is an \<open>option\<close>.
  A panic of the Go runtime or of the code itself is the left summand of a result.
\<close>

datatype panic =
    Panic string            \<comment> \<open>an explicit \<open>panic(...)\<close> of the source\<close>
  | NilDereference          \<comment> \<open>a field read or a method call through a nil pointer\<close>
  | NilMapAssignment        \<comment> \<open>an assignment to an entry of a nil map\<close>
  | IndexOutOfRange
  | MakeChanSize            \<comment> \<open>\<open>make(chan T, n)\<close> with negative \<open>n\<close>\<close>
  | SliceOutOfRange
  | Blocks                  \<comment> \<open>the goroutine waits and is never woken\<close>

type_synonym map_ref = nat

text \<open>
  \<open>port.go\<close>, struct \<open>Port\<close>. The field \<open>Properties\<close> is a pointer to a
  \<open>properties.Map\<close>; the server and the client pass it on untouched, so it is kept
  as a reference (\<open>None\<close> is nil).
\<close>

record Port =
  Address :: string
  AddressLabel :: string
  Protocol :: string
  ProtocolLabel :: string
  Properties :: "map_ref option"
  HardwareID :: string

text \<open>\<open>message.go\<close>, struct \<open>message\<close>, with its two constructors.\<close>

record message =
  EventType :: string
  Message :: string
  Error :: bool
  ProtocolVersion :: int
  Port :: "Port option"
  Ports :: "Port list option"

definition messageOk :: "string \<Rightarrow> message" where
  "messageOk event =
     \<lparr>EventType = event, Message = ''OK'', Error = False, ProtocolVersion = 0,
      Port = None, Ports = None\<rparr>"

definition messageError :: "string \<Rightarrow> string \<Rightarrow> message" where
  "messageError event msg =
     \<lparr>EventType = event, Message = msg, Error = True, ProtocolVersion = 0,
      Port = None, Ports = None\<rparr>"

section \<open>The server\<close>

subsection \<open>What the server is given\<close>

text \<open>
  The server calls into code that is not part of the package: the Go standard library
  (\<open>json.MarshalIndent\<close>, \<open>strings.TrimSpace\<close>, \<open>strings.ToUpper\<close>), the
  \<open>io.Writer\<close> it is run on, and the \<open>Discovery\<close> implementation. They are the
  fields of an environment, and every theorem holds for every environment.
  \<^item> \<open>MarshalIndent m\<close> is \<open>json.MarshalIndent(m, "", "  ")\<close>: \<open>Inr\<close> the bytes,
    \<open>Inl\<close> the text of the error.
  \<^item> \<open>Write data w\<close> is \<open>w.Write(data)\<close>: the pair \<open>(n, err)\<close> it returns and
    the writer afterwards.
  \<^item> \<open>Hello\<close>, \<open>StartSync\<close>, \<open>Stop\<close>, \<open>Quit\<close> are the methods of the interface
    \<open>Discovery\<close> on an implementation state \<open>'i\<close>; an error is the text of
    \<open>err.Error()\<close>, \<open>None\<close> is nil. The callbacks that \<open>StartSync\<close> receives are
    called by the implementation later on; each such call is a step of its own
    (\<open>eventCallback\<close>, \<open>errorCallback\<close>, \<open>syncEvent\<close>, \<open>errorEvent\<close> below).
\<close>

record ('w, 'i) env =
  MarshalIndent :: "message \<Rightarrow> string + string"
  Write :: "string \<Rightarrow> 'w \<Rightarrow> (int \<times> string option) \<times> 'w"
  TrimSpace :: "string \<Rightarrow> string"
  ToUpper :: "string \<Rightarrow> string"
  Hello :: "string \<Rightarrow> int \<Rightarrow> 'i \<Rightarrow> string option \<times> 'i"
  StartSync :: "'i \<Rightarrow> string option \<times> 'i"
  Stop :: "'i \<Rightarrow> string option \<times> 'i"
  Quit :: "'i \<Rightarrow> 'i"

text \<open>
  Struct \<open>Server\<close>. \<open>cachedPorts\<close> is a Go map from the key to the port: an
  association list with distinct keys, \<open>None\<close> for the nil map a new server has.
  The order of the list stands for the order in which Go iterates over the map, which
  the language leaves open; no theorem below depends on it. \<open>output\<close> is nil
  until \<open>Run\<close> sets it.
\<close>

record ('w, 'i) Server =
  impl :: 'i
  userAgent :: string
  reqProtocolVersion :: int
  initialized :: bool
  started :: bool
  syncStarted :: bool
  cachedPorts :: "(string \<times> Port) list option"
  cachedErr :: string
  "output" :: "'w option"

definition NewServer :: "'i \<Rightarrow> ('w, 'i) Server" where
  "NewServer i =
     \<lparr>impl = i, userAgent = [], reqProtocolVersion = 0, initialized = False,
      started = False, syncStarted = False, cachedPorts = None, cachedErr = [],
      output = None\<rparr>"

subsection \<open>send\<close>

text \<open>
  The bytes \<open>send\<close> hands to the writer: the marshalled message, or, when marshalling
  fails, the marshalled \<open>command_error\<close> (whose own error is dropped, leaving no
  bytes), followed by a newline.
\<close>

definition send_data :: "('w, 'i) env \<Rightarrow> message \<Rightarrow> string" where
  "send_data E msg =
     (let data = (case MarshalIndent E msg of
                    Inr data \<Rightarrow> data
                  | Inl err \<Rightarrow>
                      (case MarshalIndent E (messageError ''command_error'' err) of
                         Inr data \<Rightarrow> data
                       | Inl _ \<Rightarrow> []))
      in data @ [CHR 0x0A])"

definition send :: "('w, 'i) env \<Rightarrow> message \<Rightarrow> ('w, 'i) Server \<Rightarrow> panic + ('w, 'i) Server" where
  "send E msg d =
     (let data = send_data E msg in
      case output d of
        None \<Rightarrow> Inl NilDereference
      | Some w \<Rightarrow>
          (case Write E data w of
             ((n, err), w') \<Rightarrow>
               if n \<noteq> int (length data) \<or> err \<noteq> None then Inl (Panic ''ERROR'')
               else Inr (d\<lparr>output := Some w'\<rparr>)))"

subsection \<open>The command handlers\<close>

definition andThen :: "panic + 'a \<Rightarrow> ('a \<Rightarrow> panic + 'b) \<Rightarrow> panic + 'b" where
  "andThen r f = (case r of Inl p \<Rightarrow> Inl p | Inr x \<Rightarrow> f x)"

definition isDigit :: "char \<Rightarrow> bool" where
  "isDigit c = (c \<in> set ''0123456789'')"

text \<open>
  \<open>regexp.MustCompile(`^(\d+) "([^"]+)"$`).FindStringSubmatch(cmd)\<close>: \<open>None\<close> when
  there is no match (the nil slice), else the two groups. \<open>\d\<close> is the ASCII digits;
  \<open>[^"]\<close> is any character but the double quote, hence any byte but \<open>0x22\<close>.
  Both repetitions are followed by a character they cannot match, so each group is the
  longest run of its class.
\<close>

definition helloSubmatch :: "string \<Rightarrow> (string \<times> string) option" where
  "helloSubmatch cmd =
     (let m1 = takeWhile isDigit cmd; r1 = dropWhile isDigit cmd in
      if m1 = [] then None
      else (case r1 of
              c1 # c2 # r2 \<Rightarrow>
                if c1 = CHR '' '' \<and> c2 = CHR 0x22 then
                  (let m2 = takeWhile (\<lambda>c. c \<noteq> CHR 0x22) r2;
                       r3 = dropWhile (\<lambda>c. c \<noteq> CHR 0x22) r2
                   in if m2 \<noteq> [] \<and> r3 = [CHR 0x22] then Some (m1, m2) else None)
                else None
            | _ \<Rightarrow> None))"

datatype NumError = ErrSyntax | ErrRange

definition digitVal :: "char \<Rightarrow> nat" where
  "digitVal c = (of_char c :: nat) - 48"

definition decimal :: "string \<Rightarrow> nat" where
  "decimal s = foldl (\<lambda>a c. 10 * a + digitVal c) 0 s"

text \<open>
  \<open>strconv.ParseInt(s, 10, 64)\<close> on the strings \<open>hello\<close> passes to it, which are
  non-empty runs of decimal digits: the value, or \<open>ErrRange\<close> from \<open>2^63\<close> on.
  (A sign never reaches it; any other string is a syntax error.)
\<close>

definition ParseInt :: "string \<Rightarrow> NumError + int" where
  "ParseInt s =
     (if s = [] \<or> \<not> list_all isDigit s then Inl ErrSyntax
      else if 2 ^ 63 \<le> decimal s then Inl ErrRange
      else Inr (int (decimal s)))"

definition hello :: "('w, 'i) env \<Rightarrow> string \<Rightarrow> ('w, 'i) Server \<Rightarrow> panic + ('w, 'i) Server" where
  "hello E cmd d =
     (if initialized d then send E (messageError ''hello'' ''HELLO already called'') d
      else case helloSubmatch cmd of
        None \<Rightarrow> send E (messageError ''hello'' ''Invalid HELLO command'') d
      | Some (m1, m2) \<Rightarrow>
          (let d1 = d\<lparr>userAgent := m2\<rparr> in
           case ParseInt m1 of
             Inl _ \<Rightarrow> send E (messageError ''hello'' (''Invalid protocol version: '' @ m2)) d1
           | Inr v \<Rightarrow>
               (let d2 = d1\<lparr>reqProtocolVersion := v\<rparr> in
                case Hello E (userAgent d2) 1 (impl d2) of
                  (Some err, i') \<Rightarrow> send E (messageError ''hello'' err) (d2\<lparr>impl := i'\<rparr>)
                | (None, i') \<Rightarrow>
                    andThen
                      (send E \<lparr>EventType = ''hello'', Message = ''OK'', Error = False,
                               ProtocolVersion = 1, Port = None, Ports = None\<rparr>
                         (d2\<lparr>impl := i'\<rparr>))
                      (\<lambda>d3. Inr (d3\<lparr>initialized := True\<rparr>)))))"

definition start :: "('w, 'i) env \<Rightarrow> ('w, 'i) Server \<Rightarrow> panic + ('w, 'i) Server" where
  "start E d =
     (if started d then send E (messageError ''start'' ''Discovery already STARTed'') d
      else if syncStarted d then
        send E (messageError ''start'' ''Discovery already START_SYNCed, cannot START'') d
      else
        (let d1 = d\<lparr>cachedPorts := Some [], cachedErr := []\<rparr> in
         case StartSync E (impl d1) of
           (Some err, i') \<Rightarrow>
             send E (messageError ''start'' (''Cannot START: '' @ err)) (d1\<lparr>impl := i'\<rparr>)
         | (None, i') \<Rightarrow> send E (messageOk ''start'') (d1\<lparr>impl := i', started := True\<rparr>)))"

definition eventCallback ::
  "string \<Rightarrow> Port option \<Rightarrow> ('w, 'i) Server \<Rightarrow> panic + ('w, 'i) Server" where
  "eventCallback event port d =
     (case port of
        None \<Rightarrow> Inl NilDereference
      | Some p \<Rightarrow>
          (let ident = Address p @ ''|'' @ Protocol p in
           andThen
             (if event = ''add'' then
                (case cachedPorts d of
                   None \<Rightarrow> Inl NilMapAssignment
                 | Some m \<Rightarrow> Inr (d\<lparr>cachedPorts := Some (AList.update ident p m)\<rparr>))
              else Inr d)
             (\<lambda>d1. if event = ''remove'' then
                      Inr (d1\<lparr>cachedPorts := map_option (AList.delete ident) (cachedPorts d1)\<rparr>)
                    else Inr d1)))"

definition errorCallback :: "string \<Rightarrow> ('w, 'i) Server \<Rightarrow> ('w, 'i) Server" where
  "errorCallback msg d = d\<lparr>cachedErr := msg\<rparr>"

definition list :: "('w, 'i) env \<Rightarrow> ('w, 'i) Server \<Rightarrow> panic + ('w, 'i) Server" where
  "list E d =
     (if \<not> started d then send E (messageError ''list'' ''Discovery not STARTed'') d
      else if syncStarted d then
        send E (messageError ''list'' ''discovery already START_SYNCed, LIST not allowed'') d
      else if cachedErr d \<noteq> [] then send E (messageError ''list'' (cachedErr d)) d
      else
        (let ports = map snd (case cachedPorts d of None \<Rightarrow> [] | Some m \<Rightarrow> m) in
         send E \<lparr>EventType = ''list'', Message = [], Error = False, ProtocolVersion = 0,
                 Port = None, Ports = Some ports\<rparr> d))"

definition startSync :: "('w, 'i) env \<Rightarrow> ('w, 'i) Server \<Rightarrow> panic + ('w, 'i) Server" where
  "startSync E d =
     (if syncStarted d then
        send E (messageError ''start_sync'' ''Discovery already START_SYNCed'') d
      else if started d then
        send E (messageError ''start_sync'' ''Discovery already STARTed, cannot START_SYNC'') d
      else case StartSync E (impl d) of
        (Some err, i') \<Rightarrow>
          send E (messageError ''start_sync'' (''Cannot START_SYNC: '' @ err)) (d\<lparr>impl := i'\<rparr>)
      | (None, i') \<Rightarrow> send E (messageOk ''start_sync'') (d\<lparr>impl := i', syncStarted := True\<rparr>))"

definition stop :: "('w, 'i) env \<Rightarrow> ('w, 'i) Server \<Rightarrow> panic + ('w, 'i) Server" where
  "stop E d =
     (if \<not> syncStarted d \<and> \<not> started d then
        send E (messageError ''stop'' ''Discovery already STOPped'') d
      else case Stop E (impl d) of
        (Some err, i') \<Rightarrow>
          send E (messageError ''stop'' (''Cannot STOP: '' @ err)) (d\<lparr>impl := i'\<rparr>)
      | (None, i') \<Rightarrow>
          (let d1 = d\<lparr>impl := i', started := False\<rparr>;
               d2 = (if syncStarted d1 then d1\<lparr>syncStarted := False\<rparr> else d1)
           in send E (messageOk ''stop'') d2))"

definition syncEvent ::
  "('w, 'i) env \<Rightarrow> string \<Rightarrow> Port option \<Rightarrow> ('w, 'i) Server \<Rightarrow> panic + ('w, 'i) Server" where
  "syncEvent E event port d =
     send E \<lparr>EventType = event, Message = [], Error = False, ProtocolVersion = 0,
             Port = port, Ports = None\<rparr> d"

definition errorEvent :: "('w, 'i) env \<Rightarrow> string \<Rightarrow> ('w, 'i) Server \<Rightarrow> panic + ('w, 'i) Server" where
  "errorEvent E msg d = send E (messageError ''start_sync'' msg) d"

subsection \<open>Run\<close>

text \<open>\<open>strings.Split(s, sep)\<close> for a separator of one character.\<close>

fun Split :: "string \<Rightarrow> char \<Rightarrow> string list" where
  "Split [] sep = [] # []"
| "Split (c # cs) sep =
     (if c = sep then [] # Split cs sep
      else (case Split cs sep of w # ws \<Rightarrow> (c # w) # ws | [] \<Rightarrow> [c] # []))"

text \<open>
  The input stream: the bytes still to come, and the error the stream reports once they
  are used up (\<open>io.EOF\<close> for a closed pipe). \<open>ReadString\<close> is \<open>bufio.Reader.ReadString\<close>:
  the data up to and including the delimiter, or the data read before the error together
  with the error.
\<close>

record Reader =
  pending :: string
  failure :: string

definition ReadString :: "char \<Rightarrow> Reader \<Rightarrow> (string \<times> string option) \<times> Reader" where
  "ReadString delim r =
     (if delim \<in> set (pending r) then
        ((takeWhile (\<lambda>c. c \<noteq> delim) (pending r) @ [delim], None),
         r\<lparr>pending := tl (dropWhile (\<lambda>c. c \<noteq> delim) (pending r))\<rparr>)
      else ((pending r, Some (failure r)), r\<lparr>pending := []\<rparr>))"

text \<open>What one turn of the loop of \<open>Run\<close> ends with: \<open>continue\<close>, or \<open>return nil\<close>.\<close>

datatype ('w, 'i) turn = Continue "('w, 'i) Server" | ReturnNil "('w, 'i) Server"

text \<open>The body of the loop of \<open>Run\<close>, from the line read on.\<close>

definition Run_body :: "('w, 'i) env \<Rightarrow> string \<Rightarrow> ('w, 'i) Server \<Rightarrow> panic + ('w, 'i) turn" where
  "Run_body E line d =
     (let fullCmd = TrimSpace E line;
          split = Split fullCmd (CHR '' '')
      in case split of
           [] \<Rightarrow> Inl IndexOutOfRange
         | w # _ \<Rightarrow>
             (let cmd = ToUpper E w in
              if \<not> initialized d \<and> cmd \<noteq> ''HELLO'' \<and> cmd \<noteq> ''QUIT'' then
                andThen
                  (send E (messageError ''command_error''
                             (''First command must be HELLO, but got '' @ [CHR 0x27] @ cmd @ [CHR 0x27])) d)
                  (\<lambda>d'. Inr (Continue d'))
              else if cmd = ''HELLO'' then
                andThen
                  (if length fullCmd < 7 then hello E [] d else hello E (drop 6 fullCmd) d)
                  (\<lambda>d'. Inr (Continue d'))
              else if cmd = ''START'' then andThen (start E d) (\<lambda>d'. Inr (Continue d'))
              else if cmd = ''LIST'' then andThen (list E d) (\<lambda>d'. Inr (Continue d'))
              else if cmd = ''START_SYNC'' then andThen (startSync E d) (\<lambda>d'. Inr (Continue d'))
              else if cmd = ''STOP'' then andThen (stop E d) (\<lambda>d'. Inr (Continue d'))
              else if cmd = ''QUIT'' then
                andThen (send E (messageOk ''quit'') (d\<lparr>impl := Quit E (impl d)\<rparr>))
                  (\<lambda>d'. Inr (ReturnNil d'))
              else
                andThen
                  (send E (messageError ''command_error'' (''Command '' @ cmd @ '' not supported'')) d)
                  (\<lambda>d'. Inr (Continue d'))))"

function Run_loop ::
  "('w, 'i) env \<Rightarrow> Reader \<Rightarrow> ('w, 'i) Server \<Rightarrow> panic + (string option \<times> ('w, 'i) Server)" where
  "Run_loop E reader d =
     (let rd = ReadString (CHR 0x0A) reader in
      case snd (fst rd) of
        Some err \<Rightarrow>
          (case send E (messageError ''command_error'' err) d of
             Inl p \<Rightarrow> Inl p
           | Inr d' \<Rightarrow> Inr (Some err, d'))
      | None \<Rightarrow>
          (case Run_body E (fst (fst rd)) d of
             Inl p \<Rightarrow> Inl p
           | Inr (Continue d') \<Rightarrow> Run_loop E (snd rd) d'
           | Inr (ReturnNil d') \<Rightarrow> Inr (None, d')))"
  by pat_completeness auto
termination
proof (relation "measure (\<lambda>(E, reader, d). length (pending reader))")
  show "wf (measure (\<lambda>(E :: ('w, 'i) env, reader, d :: ('w, 'i) Server). length (pending reader)))"
    by simp
next
  fix E :: "('w, 'i) env" and reader :: Reader and d d' :: "('w, 'i) Server"
    and rd t x
  assume rd: "rd = ReadString (CHR 0x0A) reader" and none: "snd (fst rd) = None"
  have le: "length (dropWhile (\<lambda>c. c \<noteq> CHR 0x0A) (pending reader)) \<le> length (pending reader)"
    by (rule length_dropWhile_le)
  have less: "length (tl (dropWhile (\<lambda>c. c \<noteq> CHR 0x0A) (pending reader))) < length (pending reader)"
    if "CHR 0x0A \<in> set (pending reader)"
  proof -
    from that have "0 < length (pending reader)"
      by (cases "pending reader") simp_all
    with le show ?thesis
      unfolding length_tl by linarith
  qed
  show "((E, snd rd, d'), E, reader, d)
      \<in> measure (\<lambda>(E, reader, d). length (pending reader))"
    using rd none less by (auto simp: ReadString_def split: if_splits)
qed

definition Run ::
  "('w, 'i) env \<Rightarrow> Reader \<Rightarrow> 'w \<Rightarrow> ('w, 'i) Server \<Rightarrow> panic + (string option \<times> ('w, 'i) Server)" where
  "Run E inp out d = Run_loop E inp (d\<lparr>output := Some out\<rparr>)"

subsection \<open>Sequences of callbacks, commands and replies\<close>

text \<open>
  The implementation calling the event callback of polling mode a number of times, one
  call after the other; a panic ends the sequence.
\<close>

fun eventCallbacks ::
  "(string \<times> Port option) list \<Rightarrow> ('w, 'i) Server \<Rightarrow> panic + ('w, 'i) Server" where
  "eventCallbacks [] d = Inr d"
| "eventCallbacks ((event, port) # rest) d = andThen (eventCallback event port d) (eventCallbacks rest)"

text \<open>
  The command of a line, as the first three statements of the loop body compute it.
\<close>

definition command :: "('w, 'i) env \<Rightarrow> string \<Rightarrow> string" where
  "command E line = ToUpper E (hd (Split (TrimSpace E line) (CHR '' '')))"

text \<open>
  Of a sequence of events, the last one that concerns the key \<open>k\<close>, if any; the key
  of an event is the address of its port, a bar, and the protocol of its port.
\<close>

definition lastSeen :: "string \<Rightarrow> (string \<times> Port) list \<Rightarrow> (string \<times> Port) option" where
  "lastSeen k evs = List.find (\<lambda>e. Address (snd e) @ ''|'' @ Protocol (snd e) = k) (rev evs)"

text \<open>
  The event type of the reply to a command: the lowercase form of a known command,
  \<open>command_error\<close> for an unknown one, and \<open>command_error\<close> too for any command
  but \<open>HELLO\<close> and \<open>QUIT\<close> while the session is not initialized.
\<close>

definition replyEventType :: "bool \<Rightarrow> string \<Rightarrow> string" where
  "replyEventType init cmd =
     (if \<not> init \<and> cmd \<noteq> ''HELLO'' \<and> cmd \<noteq> ''QUIT'' then ''command_error''
      else if cmd = ''HELLO'' then ''hello''
      else if cmd = ''START'' then ''start''
      else if cmd = ''LIST'' then ''list''
      else if cmd = ''START_SYNC'' then ''start_sync''
      else if cmd = ''STOP'' then ''stop''
      else if cmd = ''QUIT'' then ''quit''
      else ''command_error'')"

text \<open>
  What one \<open>send\<close> of the message \<open>m\<close> does to the writer \<open>w\<close>: the writer after
  the one \<open>Write\<close>, or the panic.
\<close>

definition sendResult :: "('w, 'i) env \<Rightarrow> message \<Rightarrow> 'w \<Rightarrow> panic + 'w" where
  "sendResult E m w =
     (case Write E (send_data E m) w of
        ((n, err), w') \<Rightarrow>
          if n \<noteq> int (length (send_data E m)) \<or> err \<noteq> None then Inl (Panic ''ERROR'')
          else Inr w')"

definition turnServer :: "('w, 'i) turn \<Rightarrow> ('w, 'i) Server" where
  "turnServer t = (case t of Continue d \<Rightarrow> d | ReturnNil d \<Rightarrow> d)"

subsection \<open>An environment to run the server in\<close>

text \<open>
  For running the model on concrete inputs: the ASCII part of \<open>strings.TrimSpace\<close> and
  \<open>strings.ToUpper\<close> (on ASCII input they are the Go functions), a writer that takes
  every byte into a buffer, a marshaller that writes the event type and the message on
  one line in place of the JSON text, and an implementation after \<open>dummyDiscovery\<close>
  of \<open>dummy-discovery/main.go\<close>: its state is \<open>startSyncCount\<close>, and every fifth
  \<open>StartSync\<close> fails.
\<close>

definition isSpace :: "char \<Rightarrow> bool" where
  "isSpace c = (c \<in> set [CHR 0x09, CHR 0x0A, CHR 0x0B, CHR 0x0C, CHR 0x0D, CHR '' ''])"

definition asciiTrimSpace :: "string \<Rightarrow> string" where
  "asciiTrimSpace s = rev (dropWhile isSpace (rev (dropWhile isSpace s)))"

definition asciiToUpper :: "string \<Rightarrow> string" where
  "asciiToUpper s =
     map (\<lambda>c. case map_of (zip ''abcdefghijklmnopqrstuvwxyz'' ''ABCDEFGHIJKLMNOPQRSTUVWXYZ'') c of
               Some u \<Rightarrow> u | None \<Rightarrow> c) s"

definition plainMarshal :: "message \<Rightarrow> string + string" where
  "plainMarshal m = Inr (EventType m @ '': '' @ Message m)"

definition dummyStartSync :: "nat \<Rightarrow> string option \<times> nat" where
  "dummyStartSync startSyncCount =
     (if Suc startSyncCount mod 5 = 0
      then (Some ''could not start_sync every 5 times'', Suc startSyncCount)
      else (None, Suc startSyncCount))"

definition testEnv :: "(string, nat) env" where
  "testEnv =
     \<lparr>MarshalIndent = plainMarshal,
      Write = (\<lambda>data w. ((int (length data), None), w @ data)),
      TrimSpace = asciiTrimSpace,
      ToUpper = asciiToUpper,
      Hello = (\<lambda>userAgent protocol i. (None, i)),
      StartSync = dummyStartSync,
      Stop = (\<lambda>i. (None, i)),
      Quit = (\<lambda>i. i)\<rparr>"

text \<open>The same with a writer that drops the last byte of what it is given.\<close>

definition shortWriteEnv :: "(string, nat) env" where
  "shortWriteEnv = testEnv\<lparr>Write := (\<lambda>data w. ((int (length data) - 1, None), w @ butlast data))\<rparr>"

text \<open>A new server as \<open>Run\<close> sees it once it has stored the output stream.\<close>

definition freshServer :: "(string, nat) Server" where
  "freshServer = (NewServer 0)\<lparr>output := Some []\<rparr>"

text \<open>
  A port as \<open>createDummyPort\<close> of \<open>dummy-discovery/main.go\<close> makes them (without
  the properties), and the new server after a successful \<open>START\<close>.
\<close>

definition createDummyPort :: "string \<Rightarrow> Port" where
  "createDummyPort n =
     \<lparr>Address = n, AddressLabel = ''Dummy upload port'', Protocol = ''dummy'',
      ProtocolLabel = ''Dummy protocol'', Properties = None, HardwareID = []\<rparr>"

definition startedServer :: "(string, nat) Server" where
  "startedServer = freshServer\<lparr>cachedPorts := Some [], cachedErr := [], impl := 1, started := True,
      output := Some ''start: OK\<newline>''\<rparr>"

text \<open>
  Four events on three dummy ports: the first port is added and removed again, the second
  and the third are added and stay.
\<close>

definition dummyEvents :: "(string \<times> Port) list" where
  "dummyEvents =
     [(''add'', createDummyPort ''1''), (''add'', createDummyPort ''2''),
      (''remove'', createDummyPort ''1''), (''add'', createDummyPort ''3'')]"


section \<open>The client\<close>

subsection \<open>State\<close>

text \<open>
  An \<open>Event\<close> is written as the source writes it, \<open>Event{type, port, discoveryID}\<close>.
\<close>

datatype Event = Event string "Port option" string

text \<open>
  A channel of events: the events sent on it so far, which its receiver gets in this
  order, its capacity, and whether it has been closed. (A send on a full channel waits for
  the receiver; the model keeps the order of the sends.) Channels live in a store, the
  address of a channel being its index, so that a channel the client has let go of can
  still be looked at, as its receiver does.
\<close>

record chan =
  sent :: "Event list"
  capacity :: int
  closed :: bool

text \<open>
  What the client does to the things it shares with other goroutines and with the child,
  in program order.
\<close>

datatype action =
    Acquire                 \<comment> \<open>\<open>statusMutex.Lock()\<close>\<close>
  | Release                 \<comment> \<open>\<open>statusMutex.Unlock()\<close>\<close>
  | ChanSend nat Event      \<comment> \<open>a send on the channel at that address\<close>
  | ChanClose nat
  | ProcKill nat            \<comment> \<open>\<open>process.Kill()\<close> and \<open>process.Wait()\<close>\<close>

text \<open>What \<open>decoder.Decode(&msg)\<close> returns: a message, \<open>io.EOF\<close>, or another error.\<close>

datatype decodeResult = Decoded message | DecodeEOF | DecodeError string

text \<open>What launching the command line does, step by step of \<open>runProcess\<close>.\<close>

datatype launch =
    NewProcessFails string
  | StdoutPipeFails string
  | StdinPipeFails string
  | StartFails string
  | Starts nat

text \<open>
  Struct \<open>Client\<close>. The field \<open>id\<close> is \<open>discoveryID\<close> and \<open>userAgent\<close> is
  \<open>clientUserAgent\<close> here (the names are taken). \<open>discoveryMessage\<close> has the fields
  of \<open>message\<close> and is that record. The logger has no effect and is left out.
  \<^item> \<open>process\<close>: the handle of the child, \<open>None\<close> for nil.
  \<^item> \<open>outgoingCommandsPipe\<close>: whether the pipe is set (else nil).
  \<^item> \<open>incomingMessagesChan\<close>: \<open>None\<close> for nil, else whether the channel is closed.
  \<^item> \<open>statusMutex\<close>: whether the mutex is held.
  \<^item> \<open>eventChan\<close>: the address of the event channel, \<open>None\<close> for nil.
  The rest is what the client acts on:
  \<^item> \<open>chans\<close>: the store of event channels;
  \<^item> \<open>launching\<close>: what starting the child will do;
  \<^item> \<open>pipeWrites\<close>: what the coming calls of \<open>Write\<close> on the child's standard input
    return, \<open>(n, err)\<close> each, and \<open>written\<close>: the bytes the pipe has taken;
  \<^item> \<open>incoming\<close>: what the decoder reads from the child's standard output before the
    caller's next timeout, in order;
  \<^item> \<open>trace\<close>: the actions so far.
\<close>

record Client =
  discoveryID :: string
  processArgs :: "string list"
  process :: "nat option"
  outgoingCommandsPipe :: bool
  incomingMessagesChan :: "bool option"
  clientUserAgent :: string
  statusMutex :: bool
  incomingMessagesError :: "string option"
  eventChan :: "nat option"
  chans :: "chan list"
  launching :: launch
  pipeWrites :: "(int \<times> string option) list"
  written :: string
  incoming :: "decodeResult list"
  trace :: "action list"

subsection \<open>Mutex, channels, process\<close>

definition Lock :: "Client \<Rightarrow> panic + Client" where
  "Lock c = (if statusMutex c then Inl Blocks
             else Inr (c\<lparr>statusMutex := True, trace := trace c @ [Acquire]\<rparr>))"

definition Unlock :: "Client \<Rightarrow> panic + Client" where
  "Unlock c = (if statusMutex c then Inr (c\<lparr>statusMutex := False, trace := trace c @ [Release]\<rparr>)
               else Inl (Panic ''sync: unlock of unlocked mutex''))"

definition chanSend :: "nat \<Rightarrow> Event \<Rightarrow> Client \<Rightarrow> panic + Client" where
  "chanSend ch ev c =
     (if length (chans c) \<le> ch then Inl NilDereference
      else if closed (chans c ! ch) then Inl (Panic ''send on closed channel'')
      else Inr (c\<lparr>chans := (chans c)[ch := (chans c ! ch)\<lparr>sent := sent (chans c ! ch) @ [ev]\<rparr>],
                  trace := trace c @ [ChanSend ch ev]\<rparr>))"

definition chanClose :: "nat \<Rightarrow> Client \<Rightarrow> panic + Client" where
  "chanClose ch c =
     (if length (chans c) \<le> ch then Inl NilDereference
      else if closed (chans c ! ch) then Inl (Panic ''close of closed channel'')
      else Inr (c\<lparr>chans := (chans c)[ch := (chans c ! ch)\<lparr>closed := True\<rparr>],
                  trace := trace c @ [ChanClose ch]\<rparr>))"

definition stopSync :: "Client \<Rightarrow> panic + Client" where
  "stopSync c =
     (case eventChan c of
        None \<Rightarrow> Inr c
      | Some ch \<Rightarrow>
          andThen (chanSend ch (Event ''stop'' None (discoveryID c)) c)
            (\<lambda>c1. andThen (chanClose ch c1) (\<lambda>c2. Inr (c2\<lparr>eventChan := None\<rparr>))))"

definition killProcess :: "Client \<Rightarrow> panic + Client" where
  "killProcess c =
     andThen (Lock c)
       (\<lambda>c1. Unlock (case process c1 of
                        None \<Rightarrow> c1
                      | Some pid \<Rightarrow> c1\<lparr>process := None, trace := trace c1 @ [ProcKill pid]\<rparr>))"

definition NewClient :: "string \<Rightarrow> string list \<Rightarrow> launch \<Rightarrow> Client" where
  "NewClient ident args l =
     \<lparr>discoveryID = ident, processArgs = args, process = None,
      outgoingCommandsPipe = False, incomingMessagesChan = None,
      clientUserAgent = ''pluggable-discovery-protocol-handler'',
      statusMutex = False, incomingMessagesError = None, eventChan = None,
      chans = [], launching = l, pipeWrites = [], written = [], incoming = [], trace = []\<rparr>"

definition SetUserAgent :: "string \<Rightarrow> Client \<Rightarrow> Client" where
  "SetUserAgent ua c = c\<lparr>clientUserAgent := ua\<rparr>"

definition Alive :: "Client \<Rightarrow> panic + (bool \<times> Client)" where
  "Alive c = andThen (Lock c) (\<lambda>c1. andThen (Unlock c1) (\<lambda>c2. Inr (process c1 \<noteq> None, c2)))"

subsection \<open>The decode loop\<close>

definition closeAndReportError :: "string option \<Rightarrow> Client \<Rightarrow> panic + Client" where
  "closeAndReportError err c =
     andThen (Lock c) (\<lambda>c1.
     andThen (Unlock (c1\<lparr>incomingMessagesError := err\<rparr>)) (\<lambda>c2.
     andThen (stopSync c2) (\<lambda>c3.
     andThen (killProcess c3) (\<lambda>c4.
     Inr (c4\<lparr>incomingMessagesChan := Some True\<rparr>)))))"

text \<open>
  How one turn of the loop of \<open>jsonDecodeLoop\<close> ends: the message goes to the reader of
  \<open>outChan\<close>, or the loop goes on, or it returns.
\<close>

datatype decoded = Forwarded message | Skipped | Stopped

definition forwardEvent :: "string \<Rightarrow> message \<Rightarrow> Client \<Rightarrow> panic + (decoded \<times> Client)" where
  "forwardEvent ty msg c =
     (if Port msg = None then
        andThen
          (closeAndReportError
             (Some (''invalid '' @ [CHR 0x27] @ ty @ [CHR 0x27] @ '' message: missing port'')) c)
          (\<lambda>c'. Inr (Stopped, c'))
      else
        andThen (Lock c) (\<lambda>c1.
        andThen (case eventChan c1 of
                   None \<Rightarrow> Inr c1
                 | Some ch \<Rightarrow> chanSend ch (Event ty (Port msg) (discoveryID c1)) c1) (\<lambda>c2.
        andThen (Unlock c2) (\<lambda>c3. Inr (Skipped, c3)))))"

definition decodeStep :: "decodeResult \<Rightarrow> Client \<Rightarrow> panic + (decoded \<times> Client)" where
  "decodeStep r c =
     (case r of
        DecodeEOF \<Rightarrow> andThen (closeAndReportError None c) (\<lambda>c'. Inr (Stopped, c'))
      | DecodeError err \<Rightarrow> andThen (closeAndReportError (Some err) c) (\<lambda>c'. Inr (Stopped, c'))
      | Decoded msg \<Rightarrow>
          if EventType msg = ''add'' then forwardEvent ''add'' msg c
          else if EventType msg = ''remove'' then forwardEvent ''remove'' msg c
          else Inr (Forwarded msg, c))"

subsection \<open>Waiting for a message, sending a command\<close>

definition timeoutError :: "Client \<Rightarrow> string" where
  "timeoutError c = ''timeout waiting for message from '' @ discoveryID c"

text \<open>
  \<open>waitMessage\<close> receives from \<open>incomingMessagesChan\<close> or times out. The channel is
  not buffered, so a message is received when the decode loop, running on what the child
  has written, reaches a message that is not an event; the loop is run here as far as
  that. The receive yields nil once the loop has closed the channel. The timeout
  strikes when the loop has nothing more to read, or when it waits for the mutex, which
  the caller of \<open>waitMessage\<close> may hold.
\<close>

fun waitLoop ::
  "decodeResult list \<Rightarrow> Client \<Rightarrow> panic + ((message option \<times> string option) \<times> Client)" where
  "waitLoop [] c = Inr ((None, Some (timeoutError c)), c\<lparr>incoming := []\<rparr>)"
| "waitLoop (r # rs) c =
     (case decodeStep r (c\<lparr>incoming := rs\<rparr>) of
        Inl Blocks \<Rightarrow> Inr ((None, Some (timeoutError c)), c\<lparr>incoming := r # rs\<rparr>)
      | Inl p \<Rightarrow> Inl p
      | Inr (Forwarded msg, c') \<Rightarrow> Inr ((Some msg, None), c')
      | Inr (Skipped, c') \<Rightarrow> waitLoop rs c'
      | Inr (Stopped, c') \<Rightarrow> Inr ((None, incomingMessagesError c'), c'))"

definition waitMessage :: "Client \<Rightarrow> panic + ((message option \<times> string option) \<times> Client)" where
  "waitMessage c =
     (case incomingMessagesChan c of
        None \<Rightarrow> Inr ((None, Some (timeoutError c)), c)
      | Some True \<Rightarrow> Inr ((None, incomingMessagesError c), c)
      | Some False \<Rightarrow> waitLoop (incoming c) c)"

text \<open>
  The loop of \<open>sendCommand\<close>, over the results of the calls of \<open>Write\<close> to come. With
  none left the write does not return.
\<close>

fun sendLoop ::
  "string \<Rightarrow> (int \<times> string option) list \<Rightarrow> Client \<Rightarrow> panic + (string option \<times> Client)" where
  "sendLoop data [] c = Inl Blocks"
| "sendLoop data ((n, err) # ws) c =
     (let c1 = c\<lparr>pipeWrites := ws, written := written c @ take (nat n) data\<rparr> in
      if err \<noteq> None then Inr (err, c1)
      else if n = int (length data) then Inr (None, c1)
      else if n < 0 \<or> int (length data) < n then Inl SliceOutOfRange
      else sendLoop (drop (nat n) data) ws c1)"

definition sendCommand :: "string \<Rightarrow> Client \<Rightarrow> panic + (string option \<times> Client)" where
  "sendCommand cmd c =
     (if \<not> outgoingCommandsPipe c then Inl NilDereference
      else sendLoop cmd (pipeWrites c) c)"

subsection \<open>The commands\<close>

definition runProcess :: "Client \<Rightarrow> panic + (string option \<times> Client)" where
  "runProcess c =
     (case launching c of
        NewProcessFails err \<Rightarrow> Inr (Some err, c)
      | StdoutPipeFails err \<Rightarrow> Inr (Some err, c)
      | StdinPipeFails err \<Rightarrow> Inr (Some err, c)
      | StartFails err \<Rightarrow>
          Inr (Some err, c\<lparr>outgoingCommandsPipe := True, incomingMessagesChan := Some False\<rparr>)
      | Starts pid \<Rightarrow>
          andThen (Lock (c\<lparr>outgoingCommandsPipe := True, incomingMessagesChan := Some False\<rparr>))
            (\<lambda>c1. andThen (Unlock (c1\<lparr>process := Some pid\<rparr>)) (\<lambda>c2. Inr (None, c2))))"

text \<open>
  The checks on a reply that \<open>Run\<close>, \<open>Start\<close>, \<open>Stop\<close> and \<open>StartSync\<close> share:
  \<open>Inl\<close> the nil dereference of \<open>msg.EventType\<close> when \<open>waitMessage\<close> returned
  neither a message nor an error, else the error, nil when the reply is \<open>OK\<close>. The
  function \<open>U\<close> is \<open>strings.ToUpper\<close>.
\<close>

definition checkReply ::
  "(string \<Rightarrow> string) \<Rightarrow> string \<Rightarrow> string \<Rightarrow> string \<Rightarrow> message option \<times> string option
     \<Rightarrow> panic + string option" where
  "checkReply U calling outOfSync expected r =
     (case r of
        (_, Some err) \<Rightarrow> Inr (Some (''calling '' @ calling @ '': '' @ err))
      | (None, None) \<Rightarrow> Inl NilDereference
      | (Some msg, None) \<Rightarrow>
          if EventType msg \<noteq> expected then
            Inr (Some (outOfSync @ '' out of sync, expected '' @ [CHR 0x27] @ expected
                       @ [CHR 0x27] @ '', received '' @ [CHR 0x27] @ EventType msg @ [CHR 0x27]))
          else if Error msg then Inr (Some (''command failed: '' @ Message msg))
          else if U (Message msg) \<noteq> ''OK'' then
            Inr (Some (''communication out of sync, expected '' @ [CHR 0x27] @ ''OK''
                       @ [CHR 0x27] @ '', received '' @ [CHR 0x27] @ Message msg @ [CHR 0x27]))
          else Inr None)"

text \<open>\<open>%d\<close> of \<open>fmt\<close> on an integer.\<close>

fun natDigits :: "nat \<Rightarrow> string" where
  "natDigits n =
     (if n < 10 then [char_of (48 + n)] else natDigits (n div 10) @ [char_of (48 + n mod 10)])"

definition itoa :: "int \<Rightarrow> string" where
  "itoa i = (if i < 0 then ''-'' @ natDigits (nat (- i)) else natDigits (nat i))"

text \<open>The line \<open>Run\<close> sends: \<open>HELLO 1 "arduino-cli <userAgent>"\<close> and a newline.\<close>

definition helloCommand :: "Client \<Rightarrow> string" where
  "helloCommand c =
     ''HELLO 1 '' @ [CHR 0x22] @ ''arduino-cli '' @ clientUserAgent c @ [CHR 0x22, CHR 0x0A]"

text \<open>\<open>Run\<close> after \<open>runProcess\<close>, up to the deferred function.\<close>

definition handshake :: "(string \<Rightarrow> string) \<Rightarrow> Client \<Rightarrow> panic + (string option \<times> Client)" where
  "handshake U c =
     andThen (sendCommand (helloCommand c) c)
       (\<lambda>(err, c1).
          if err \<noteq> None then Inr (err, c1)
          else andThen (waitMessage c1)
            (\<lambda>(r, c2).
               andThen (checkReply U ''HELLO'' ''event'' ''hello'' r)
                 (\<lambda>e. case (e, fst r) of
                        (Some _, _) \<Rightarrow> Inr (e, c2)
                      | (None, None) \<Rightarrow> Inl NilDereference
                      | (None, Some msg) \<Rightarrow>
                          if 1 < ProtocolVersion msg then
                            Inr (Some (''protocol version not supported: requested 1, got ''
                                       @ itoa (ProtocolVersion msg)), c2)
                          else Inr (None, c2))))"

definition Client_Run :: "(string \<Rightarrow> string) \<Rightarrow> Client \<Rightarrow> panic + (string option \<times> Client)" where
  "Client_Run U c =
     andThen (runProcess c)
       (\<lambda>(err, c1).
          if err \<noteq> None then Inr (err, c1)
          else andThen (handshake U c1)
            (\<lambda>(err, c2).
               if err = None then Inr (None, c2)
               else andThen (killProcess c2) (\<lambda>c3. Inr (err, c3))))"


definition Client_Start :: "(string \<Rightarrow> string) \<Rightarrow> Client \<Rightarrow> panic + (string option \<times> Client)" where
  "Client_Start U c =
     andThen (sendCommand ''START\<newline>'' c)
       (\<lambda>(err, c1).
          if err \<noteq> None then Inr (err, c1)
          else andThen (waitMessage c1)
            (\<lambda>(r, c2). andThen (checkReply U ''START'' ''event'' ''start'' r) (\<lambda>e. Inr (e, c2))))"

definition Client_Stop :: "(string \<Rightarrow> string) \<Rightarrow> Client \<Rightarrow> panic + (string option \<times> Client)" where
  "Client_Stop U c =
     andThen (sendCommand ''STOP\<newline>'' c)
       (\<lambda>(err, c1).
          if err \<noteq> None then Inr (err, c1)
          else andThen (waitMessage c1)
            (\<lambda>(r, c2).
               andThen (checkReply U ''STOP'' ''event'' ''stop'' r)
                 (\<lambda>e. if e \<noteq> None then Inr (e, c2)
                      else andThen (Lock c2) (\<lambda>c3.
                           andThen (stopSync c3) (\<lambda>c4.
                           andThen (Unlock c4) (\<lambda>c5. Inr (None, c5)))))))"

definition Client_Quit :: "Client \<Rightarrow> panic + Client" where
  "Client_Quit c =
     andThen (sendCommand ''QUIT\<newline>'' c)
       (\<lambda>(_, c1). andThen (waitMessage c1)
          (\<lambda>(_, c2). andThen (stopSync c2) killProcess))"

definition Client_List :: "Client \<Rightarrow> panic + ((Port list option \<times> string option) \<times> Client)" where
  "Client_List c =
     andThen (sendCommand ''LIST\<newline>'' c)
       (\<lambda>(err, c1).
          if err \<noteq> None then Inr ((None, err), c1)
          else andThen (waitMessage c1)
            (\<lambda>(r, c2).
               case r of
                 (_, Some err) \<Rightarrow> Inr ((None, Some (''calling LIST: '' @ err)), c2)
               | (None, None) \<Rightarrow> Inl NilDereference
               | (Some msg, None) \<Rightarrow>
                   if EventType msg \<noteq> ''list'' then
                     Inr ((None, Some (''event out of sync, expected '' @ [CHR 0x27] @ ''list''
                            @ [CHR 0x27] @ '', received '' @ [CHR 0x27] @ EventType msg @ [CHR 0x27])), c2)
                   else if Error msg then Inr ((None, Some (''command failed: '' @ Message msg)), c2)
                   else Inr ((Ports msg, None), c2)))"

text \<open>
  \<open>StartSync\<close> holds the mutex from its first statement to its return (the deferred
  \<open>Unlock\<close>, here \<open>unlocking\<close>). It returns the address of the new channel.
\<close>

definition unlocking ::
  "'a \<Rightarrow> Client \<Rightarrow> panic + ('a \<times> Client)" where
  "unlocking res c = andThen (Unlock c) (\<lambda>c'. Inr (res, c'))"

definition Client_StartSync ::
  "(string \<Rightarrow> string) \<Rightarrow> int \<Rightarrow> Client \<Rightarrow> panic + ((nat option \<times> string option) \<times> Client)" where
  "Client_StartSync U sz c =
     andThen (Lock c) (\<lambda>c0.
     andThen (sendCommand ''START_SYNC\<newline>'' c0)
       (\<lambda>(err, c1).
          if err \<noteq> None then unlocking (None, err) c1
          else andThen (waitMessage c1)
            (\<lambda>(r, c2).
               andThen (checkReply U ''START_SYNC'' ''evemt'' ''start_sync'' r)
                 (\<lambda>e. if e \<noteq> None then unlocking (None, e) c2
                      else andThen (stopSync c2) (\<lambda>c3.
                           if sz < 0 then Inl MakeChanSize
                           else unlocking (Some (length (chans c3)), None)
                                  (c3\<lparr>chans := chans c3 @ [\<lparr>sent = [], capacity = sz, closed = False\<rparr>],
                                      eventChan := Some (length (chans c3))\<rparr>))))))"

subsection \<open>One event channel\<close>

text \<open>
  At most one event channel is in use: every channel of the store that is not closed is
  the one the client holds in \<open>eventChan\<close>, and the one it holds is in the store and
  open.
\<close>

definition oneEventChan :: "Client \<Rightarrow> bool" where
  "oneEventChan c =
     ((\<forall>ch < length (chans c). \<not> closed (chans c ! ch) \<longrightarrow> eventChan c = Some ch) \<and>
      (\<forall>ch. eventChan c = Some ch \<longrightarrow> ch < length (chans c) \<and> \<not> closed (chans c ! ch)))"


subsection \<open>Clients to run\<close>

text \<open>
  A client in event mode with one open channel of capacity 20, the \<open>add\<close> message
  of the first dummy port, and a new client whose child will take the \<open>HELLO\<close> line
  (59 bytes) and exit without an answer, as \<open>dummy-discovery --invalid\<close> does.
\<close>

definition syncClient :: Client where
  "syncClient =
     (NewClient ''1'' [''dummy-discovery''] (Starts 7))
       \<lparr>process := Some 7, outgoingCommandsPipe := True, incomingMessagesChan := Some False,
        eventChan := Some 0, chans := [\<lparr>sent = [], capacity = 20, closed = False\<rparr>]\<rparr>"

definition crashingClient :: Client where
  "crashingClient =
     (NewClient ''1'' [''dummy-discovery'', ''--invalid''] (Starts 7))
       \<lparr>pipeWrites := [(59, None)], incoming := [DecodeEOF]\<rparr>"

definition addMessage :: message where
  "addMessage =
     \<lparr>EventType = ''add'', Message = [], Error = False, ProtocolVersion = 0,
      Port = Some (createDummyPort ''1''), Ports = None\<rparr>"

section \<open>Ports on the heap\<close>

text \<open>
  \<open>Equals\<close> and \<open>Clone\<close> work on pointers to ports, and \<open>Clone\<close> is about what
  is shared. The heap holds the \<open>Port\<close> objects and the \<open>properties.Map\<close> objects, the
  address of an object being its index; \<open>None\<close> is the nil pointer. An address outside
  the heap does not occur in Go and is treated as nil.
\<close>

record heap =
  portObjs :: "Port list"
  mapObjs :: "(string \<times> string) list list"

definition loadPort :: "heap \<Rightarrow> nat option \<Rightarrow> panic + Port" where
  "loadPort h p =
     (case p of
        None \<Rightarrow> Inl NilDereference
      | Some a \<Rightarrow> if a < length (portObjs h) then Inr (portObjs h ! a) else Inl NilDereference)"

definition Equals :: "heap \<Rightarrow> nat option \<Rightarrow> nat option \<Rightarrow> panic + bool" where
  "Equals h p other =
     andThen (loadPort h p) (\<lambda>pv.
     andThen (loadPort h other) (\<lambda>ov.
     Inr (Address pv = Address ov \<and> Protocol pv = Protocol ov)))"

text \<open>
  Modelled from the spec: \<open>properties.Map\<close> and its method \<open>Clone\<close>, of the package
  \<open>go-properties-orderedmap\<close>, which the sources import and do not contain. The spec has
  the properties as an ordered mapping from string to string that keeps the order of
  insertion, and \<open>Clone\<close> of a port as an independent deep copy including the properties
  mapping: a map object is the list of its entries in order, and \<open>Map_Clone\<close> makes a
  new object with the same entries.
\<close>

definition Map_Clone :: "heap \<Rightarrow> map_ref \<Rightarrow> panic + (map_ref \<times> heap)" where
  "Map_Clone h m =
     (if m < length (mapObjs h)
      then Inr (length (mapObjs h), h\<lparr>mapObjs := mapObjs h @ [mapObjs h ! m]\<rparr>)
      else Inl NilDereference)"

definition Clone :: "heap \<Rightarrow> nat option \<Rightarrow> panic + (nat option \<times> heap)" where
  "Clone h p =
     (case p of
        None \<Rightarrow> Inr (None, h)
      | Some a \<Rightarrow>
          andThen (loadPort h p) (\<lambda>res.
          andThen (case Properties res of
                     None \<Rightarrow> Inr (res, h)
                   | Some m \<Rightarrow>
                       andThen (Map_Clone h m) (\<lambda>(m', h'). Inr (res\<lparr>Properties := Some m'\<rparr>, h')))
            (\<lambda>(res', h1). Inr (Some (length (portObjs h1)), h1\<lparr>portObjs := portObjs h1 @ [res']\<rparr>))))"

text \<open>
  What a pointer to a port stands for: the fields of the port, with the entries of its
  properties in place of the pointer to them.
\<close>

definition portView ::
  "heap \<Rightarrow> nat \<Rightarrow> string \<times> string \<times> string \<times> string \<times> (string \<times> string) list option \<times> string" where
  "portView h a =
     (let v = portObjs h ! a in
      (Address v, AddressLabel v, Protocol v, ProtocolLabel v,
       map_option (\<lambda>m. mapObjs h ! m) (Properties v), HardwareID v))"

text \<open>A heap with the first dummy port and its three properties.\<close>

definition dummyHeap :: heap where
  "dummyHeap =
     \<lparr>portObjs = [(createDummyPort ''1'')\<lparr>Properties := Some 0\<rparr>],
      mapObjs = [(''vid'', ''0x2341''), (''pid'', ''0x0041''), (''mac'', ''384782'')] # []\<rparr>"


section \<open>Theorems about the server\<close>

subsection \<open>send\<close>

text \<open>
  C8. Whenever the write of a message returns an error, or a count that is not the
  length of the serialized message with its trailing newline, \<open>send\<close> panics: there is
  no server state to go on with.
\<close>

theorem C8_send_panics_on_failed_write:
  assumes "output d = Some w"
    and "Write E (send_data E msg) w = ((n, err), w')"
    and "err \<noteq> None \<or> n \<noteq> int (length (send_data E msg))"
  shows "send E msg d = Inl (Panic ''ERROR'')"
  using assms by (auto simp: send_def Let_def)

theorem C8_send_panics_on_failed_write_witness:
  "send shortWriteEnv (messageOk ''quit'') freshServer = Inl (Panic ''ERROR'')"
proof -
  have h1: "output freshServer = Some []"
    by (simp add: freshServer_def)
  have h2: "Write shortWriteEnv (send_data shortWriteEnv (messageOk ''quit'')) [] =
      ((8, None), ''quit: OK'')"
    by (simp add: shortWriteEnv_def testEnv_def send_data_def plainMarshal_def messageOk_def)
  have h3: "(None :: string option) \<noteq> None \<or>
      8 \<noteq> int (length (send_data shortWriteEnv (messageOk ''quit'')))"
    by (simp add: shortWriteEnv_def testEnv_def send_data_def plainMarshal_def messageOk_def)
  show ?thesis
    by (rule C8_send_panics_on_failed_write [OF h1 h2 h3])
qed

subsection \<open>The loop body, command by command\<close>

lemma Split_nonempty: "Split s sep \<noteq> []"
  by (induction s) (auto split: list.splits)

lemma send_frame:
  "send E m d = Inr d' \<Longrightarrow> d' = d\<lparr>output := output d'\<rparr>"
  by (auto simp: send_def Let_def split: option.splits prod.splits if_splits)

lemma Run_body_command:
  "Run_body E line d =
     (let fullCmd = TrimSpace E line; cmd = command E line in
      if \<not> initialized d \<and> cmd \<noteq> ''HELLO'' \<and> cmd \<noteq> ''QUIT'' then
        andThen
          (send E (messageError ''command_error''
                     (''First command must be HELLO, but got '' @ [CHR 0x27] @ cmd @ [CHR 0x27])) d)
          (\<lambda>d'. Inr (Continue d'))
      else if cmd = ''HELLO'' then
        andThen
          (if length fullCmd < 7 then hello E [] d else hello E (drop 6 fullCmd) d)
          (\<lambda>d'. Inr (Continue d'))
      else if cmd = ''START'' then andThen (start E d) (\<lambda>d'. Inr (Continue d'))
      else if cmd = ''LIST'' then andThen (list E d) (\<lambda>d'. Inr (Continue d'))
      else if cmd = ''START_SYNC'' then andThen (startSync E d) (\<lambda>d'. Inr (Continue d'))
      else if cmd = ''STOP'' then andThen (stop E d) (\<lambda>d'. Inr (Continue d'))
      else if cmd = ''QUIT'' then
        andThen (send E (messageOk ''quit'') (d\<lparr>impl := Quit E (impl d)\<rparr>))
          (\<lambda>d'. Inr (ReturnNil d'))
      else
        andThen
          (send E (messageError ''command_error'' (''Command '' @ cmd @ '' not supported'')) d)
          (\<lambda>d'. Inr (Continue d')))"
proof (cases "Split (TrimSpace E line) (CHR '' '')")
  case Nil
  then show ?thesis using Split_nonempty by blast
next
  case (Cons w ws)
  then show ?thesis
    unfolding Run_body_def command_def Let_def by simp
qed

lemma Run_body_guard:
  assumes "\<not> initialized d" "command E line \<noteq> ''HELLO''" "command E line \<noteq> ''QUIT''"
  shows "Run_body E line d =
     andThen (send E (messageError ''command_error''
                (''First command must be HELLO, but got '' @ [CHR 0x27] @ command E line @ [CHR 0x27])) d)
       (\<lambda>d'. Inr (Continue d'))"
  unfolding Run_body_command Let_def using assms by (simp only: simp_thms if_True)

lemma Run_body_HELLO:
  assumes "command E line = ''HELLO''"
  shows "Run_body E line d =
     andThen (if length (TrimSpace E line) < 7 then hello E [] d
              else hello E (drop 6 (TrimSpace E line)) d)
       (\<lambda>d'. Inr (Continue d'))"
  unfolding Run_body_command Let_def assms by simp

lemma Run_body_START:
  assumes "initialized d" "command E line = ''START''"
  shows "Run_body E line d = andThen (start E d) (\<lambda>d'. Inr (Continue d'))"
  unfolding Run_body_command Let_def assms(2) using assms(1) by simp

lemma Run_body_LIST:
  assumes "initialized d" "command E line = ''LIST''"
  shows "Run_body E line d = andThen (list E d) (\<lambda>d'. Inr (Continue d'))"
  unfolding Run_body_command Let_def assms(2) using assms(1) by simp

lemma Run_body_START_SYNC:
  assumes "initialized d" "command E line = ''START_SYNC''"
  shows "Run_body E line d = andThen (startSync E d) (\<lambda>d'. Inr (Continue d'))"
  unfolding Run_body_command Let_def assms(2) using assms(1) by simp

lemma Run_body_STOP:
  assumes "initialized d" "command E line = ''STOP''"
  shows "Run_body E line d = andThen (stop E d) (\<lambda>d'. Inr (Continue d'))"
  unfolding Run_body_command Let_def assms(2) using assms(1) by simp

lemma Run_body_QUIT:
  assumes "command E line = ''QUIT''"
  shows "Run_body E line d =
     andThen (send E (messageOk ''quit'') (d\<lparr>impl := Quit E (impl d)\<rparr>)) (\<lambda>d'. Inr (ReturnNil d'))"
  unfolding Run_body_command Let_def assms by simp

lemma Run_body_unknown:
  assumes "initialized d" "command E line \<notin> {''HELLO'', ''START'', ''LIST'', ''START_SYNC'', ''STOP'', ''QUIT''}"
  shows "Run_body E line d =
     andThen (send E (messageError ''command_error''
                (''Command '' @ command E line @ '' not supported'')) d)
       (\<lambda>d'. Inr (Continue d'))"
  unfolding Run_body_command Let_def using assms by simp



lemma send_frame_fields:
  assumes "send E m d = Inr d'"
  shows "initialized d' = initialized d \<and> started d' = started d \<and>
      syncStarted d' = syncStarted d \<and> cachedPorts d' = cachedPorts d \<and>
      cachedErr d' = cachedErr d \<and> userAgent d' = userAgent d \<and>
      reqProtocolVersion d' = reqProtocolVersion d \<and> impl d' = impl d"
  using assms by (auto simp: send_def Let_def split: option.splits prod.splits if_splits)

lemma forbidden_command_one_reply:
  assumes "cmd = command E line"
    and "(\<not> initialized d \<and> cmd \<noteq> ''HELLO'' \<and> cmd \<noteq> ''QUIT'')
       \<or> (initialized d \<and> cmd = ''HELLO'')
       \<or> ((started d \<or> syncStarted d) \<and> (cmd = ''START'' \<or> cmd = ''START_SYNC''))
       \<or> ((\<not> started d \<or> syncStarted d) \<and> cmd = ''LIST'')
       \<or> (\<not> started d \<and> \<not> syncStarted d \<and> cmd = ''STOP'')"
  shows "\<exists>reply. Error reply \<and> Run_body E line d = andThen (send E reply d) (\<lambda>d'. Inr (Continue d'))"
proof (cases "\<not> initialized d \<and> cmd \<noteq> ''HELLO'' \<and> cmd \<noteq> ''QUIT''")
  case True
  let ?m = "messageError ''command_error''
       (''First command must be HELLO, but got '' @ [CHR 0x27] @ command E line @ [CHR 0x27])"
  have "Error ?m" by (simp add: messageError_def)
  moreover have "Run_body E line d = andThen (send E ?m d) (\<lambda>d'. Inr (Continue d'))"
    using True assms(1) by (intro Run_body_guard) simp_all
  ultimately show ?thesis by blast
next
  case False
  note nf = False
  have err: "\<And>e t. Error (messageError e t)"
    by (simp add: messageError_def)
  consider (hello) "initialized d" "cmd = ''HELLO''"
    | (start) "initialized d" "started d \<or> syncStarted d" "cmd = ''START''"
    | (startSync) "initialized d" "started d \<or> syncStarted d" "cmd = ''START_SYNC''"
    | (list) "initialized d" "\<not> started d \<or> syncStarted d" "cmd = ''LIST''"
    | (stop) "initialized d" "\<not> started d" "\<not> syncStarted d" "cmd = ''STOP''"
    using assms(2) nf by fastforce
  then show ?thesis
  proof cases
    case hello
    have "hello E c d = send E (messageError ''hello'' ''HELLO already called'') d" for c
      using hello(1) by (simp add: hello_def)
    then have "Run_body E line d =
        andThen (send E (messageError ''hello'' ''HELLO already called'') d) (\<lambda>d'. Inr (Continue d'))"
      using hello(2) assms(1) by (simp add: Run_body_HELLO)
    with err show ?thesis by blast
  next
    case start
    have "\<exists>t. start E d = send E (messageError ''start'' t) d"
      using start(2) by (auto simp: start_def)
    then obtain t where t: "start E d = send E (messageError ''start'' t) d"
      by blast
    have "Run_body E line d =
        andThen (send E (messageError ''start'' t) d) (\<lambda>d'. Inr (Continue d'))"
      using start(1,3) assms(1) by (simp add: Run_body_START t)
    with err show ?thesis by blast
  next
    case startSync
    have "\<exists>t. startSync E d = send E (messageError ''start_sync'' t) d"
      using startSync(2) by (auto simp: startSync_def)
    then obtain t where t: "startSync E d = send E (messageError ''start_sync'' t) d"
      by blast
    have "Run_body E line d =
        andThen (send E (messageError ''start_sync'' t) d) (\<lambda>d'. Inr (Continue d'))"
      using startSync(1,3) assms(1) by (simp add: Run_body_START_SYNC t)
    with err show ?thesis by blast
  next
    case list
    have "\<exists>t. list E d = send E (messageError ''list'' t) d"
      using list(2) by (auto simp: list_def)
    then obtain t where t: "list E d = send E (messageError ''list'' t) d"
      by blast
    have "Run_body E line d =
        andThen (send E (messageError ''list'' t) d) (\<lambda>d'. Inr (Continue d'))"
      using list(1,3) assms(1) by (simp add: Run_body_LIST t)
    with err show ?thesis by blast
  next
    case stop
    have "stop E d = send E (messageError ''stop'' ''Discovery already STOPped'') d"
      using stop(2,3) by (simp add: stop_def)
    then have "Run_body E line d =
        andThen (send E (messageError ''stop'' ''Discovery already STOPped'') d) (\<lambda>d'. Inr (Continue d'))"
      using stop(1,4) assms(1) by (simp add: Run_body_STOP)
    with err show ?thesis by blast
  qed
qed


lemma send_effect:
  "output d = Some w \<Longrightarrow> map_sum id output (send E m d) = map_sum id Some (sendResult E m w)"
  by (auto simp: send_def sendResult_def Let_def split: prod.splits)

lemma send_effect_ex:
  "output d = Some w \<Longrightarrow> EventType m = ty \<Longrightarrow>
   \<exists>reply. EventType reply = ty \<and>
     map_sum id output (send E m d) = map_sum id Some (sendResult E reply w)"
  by (intro exI[of _ m]) (simp add: send_effect)

lemma andThen_output:
  "(\<And>x. output (k x) = output x) \<Longrightarrow>
   map_sum id output (andThen r (\<lambda>x. Inr (k x))) = map_sum id output r"
  by (cases r) (simp_all add: andThen_def)

lemma andThen_turn:
  "(\<And>x. turnServer (k x) = x) \<Longrightarrow>
   map_sum id (\<lambda>t. output (turnServer t)) (andThen r (\<lambda>x. Inr (k x))) = map_sum id output r"
  by (cases r) (simp_all add: andThen_def)

lemma ety [simp]: "EventType (messageError e t) = e" "EventType (messageOk e) = e"
  by (simp_all add: messageError_def messageOk_def)

lemma start_once:
  assumes "output d = Some w"
  shows "\<exists>reply. EventType reply = ''start'' \<and>
     map_sum id output (start E d) = map_sum id Some (sendResult E reply w)"
  using assms
  by (auto simp: start_def Let_def split: prod.splits option.splits intro!: send_effect_ex)

lemma list_once:
  assumes "output d = Some w"
  shows "\<exists>reply. EventType reply = ''list'' \<and>
     map_sum id output (list E d) = map_sum id Some (sendResult E reply w)"
  using assms
  by (auto simp: list_def Let_def split: prod.splits option.splits intro!: send_effect_ex)

lemma startSync_once:
  assumes "output d = Some w"
  shows "\<exists>reply. EventType reply = ''start_sync'' \<and>
     map_sum id output (startSync E d) = map_sum id Some (sendResult E reply w)"
  using assms
  by (auto simp: startSync_def Let_def split: prod.splits option.splits intro!: send_effect_ex)

lemma stop_once:
  assumes "output d = Some w"
  shows "\<exists>reply. EventType reply = ''stop'' \<and>
     map_sum id output (stop E d) = map_sum id Some (sendResult E reply w)"
  using assms
  by (auto simp: stop_def Let_def split: prod.splits option.splits intro!: send_effect_ex)

lemma hello_once:
  assumes "output d = Some w"
  shows "\<exists>reply. EventType reply = ''hello'' \<and>
     map_sum id output (hello E cmd d) = map_sum id Some (sendResult E reply w)"
proof -
  have k: "map_sum id output (andThen r (\<lambda>d3. Inr (d3\<lparr>initialized := True\<rparr>))) = map_sum id output r"
    for r :: "panic + ('a, 'b) Server"
    by (rule andThen_output) simp
  show ?thesis
    using assms
    by (auto simp: hello_def Let_def k split: prod.splits option.splits sum.splits
        intro!: send_effect_ex)
qed

lemma command_LIST: "command testEnv ''LIST\<newline>'' = ''LIST''"
  by (simp add: command_def testEnv_def asciiTrimSpace_def asciiToUpper_def isSpace_def)


subsection \<open>Replies\<close>

text \<open>
  C2, as the code has it. The claim reads: every line gets exactly one reply, whose event
  type is the lowercase form of the command when the command is known, and
  \<open>command_error\<close> when it is unknown. The guard at the head of the loop body answers
  every command but \<open>HELLO\<close> and \<open>QUIT\<close> with \<open>command_error\<close> while the
  session is not initialized, known or not; \<open>replyEventType\<close> says so. With that, for
  every line and every state the effect of the turn on the output stream is that of one
  \<open>send\<close> of one reply of that event type (the panic of that \<open>send\<close> included).
\<close>

theorem C2_one_reply_per_line:
  assumes "output d = Some w"
  shows "\<exists>reply. EventType reply = replyEventType (initialized d) (command E line) \<and>
     map_sum id (\<lambda>t. output (turnServer t)) (Run_body E line d)
       = map_sum id Some (sendResult E reply w)"
proof -
  have c: "map_sum id (\<lambda>t. output (turnServer t)) (andThen r (\<lambda>x. Inr (Continue x)))
      = map_sum id output r" for r :: "panic + ('a, 'b) Server"
    by (rule andThen_turn) (simp add: turnServer_def)
  have q: "map_sum id (\<lambda>t. output (turnServer t)) (andThen r (\<lambda>x. Inr (ReturnNil x)))
      = map_sum id output r" for r :: "panic + ('a, 'b) Server"
    by (rule andThen_turn) (simp add: turnServer_def)
  let ?cmd = "command E line"
  show ?thesis
  proof (cases "\<not> initialized d \<and> ?cmd \<noteq> ''HELLO'' \<and> ?cmd \<noteq> ''QUIT''")
    case True
    then show ?thesis
      using assms by (simp add: Run_body_guard replyEventType_def c send_effect_ex)
  next
    case False
    note nf = False
    consider (hello) "?cmd = ''HELLO''" | (quit) "?cmd = ''QUIT''"
      | (start) "initialized d" "?cmd = ''START''"
      | (list) "initialized d" "?cmd = ''LIST''"
      | (startSync) "initialized d" "?cmd = ''START_SYNC''"
      | (stop) "initialized d" "?cmd = ''STOP''"
      | (other) "initialized d"
          "?cmd \<notin> {''HELLO'', ''START'', ''LIST'', ''START_SYNC'', ''STOP'', ''QUIT''}"
      using nf by blast
    then show ?thesis
    proof cases
      case hello
      then show ?thesis
        using hello_once[OF assms] by (simp add: Run_body_HELLO replyEventType_def c)
    next
      case quit
      have "output (d\<lparr>impl := Quit E (impl d)\<rparr>) = Some w" using assms by simp
      from send_effect_ex[OF this, of "messageOk ''quit''" "''quit''" E] quit
      show ?thesis
        by (simp add: Run_body_QUIT replyEventType_def q)
    next
      case start
      then show ?thesis
        using start_once[OF assms] by (simp add: Run_body_START replyEventType_def c)
    next
      case list
      then show ?thesis
        using list_once[OF assms] by (simp add: Run_body_LIST replyEventType_def c)
    next
      case startSync
      then show ?thesis
        using startSync_once[OF assms] by (simp add: Run_body_START_SYNC replyEventType_def c)
    next
      case stop
      then show ?thesis
        using stop_once[OF assms] by (simp add: Run_body_STOP replyEventType_def c)
    next
      case other
      then show ?thesis
        using assms by (simp add: Run_body_unknown replyEventType_def c send_effect_ex)
    qed
  qed
qed


theorem C2_one_reply_per_line_witness:
  "\<exists>reply. EventType reply = ''command_error'' \<and>
     map_sum id (\<lambda>t. output (turnServer t)) (Run_body testEnv ''LIST\<newline>'' freshServer)
       = map_sum id Some (sendResult testEnv reply [])"
proof -
  have h: "output freshServer = Some []" by (simp add: freshServer_def)
  have "replyEventType (initialized freshServer) (command testEnv ''LIST\<newline>'')
      = ''command_error''"
    unfolding command_LIST by (simp add: replyEventType_def freshServer_def NewServer_def)
  with C2_one_reply_per_line[OF h, of testEnv "''LIST\<newline>''"] show ?thesis by simp
qed

text \<open>
  C2, as the claim states it, fails: on a new server the line \<open>LIST\<close> holds the known
  command \<open>LIST\<close>, and what is written is a \<open>command_error\<close>, not a \<open>list\<close>.
\<close>

theorem C2_list_before_hello_counterexample:
  "command testEnv ''LIST\<newline>'' = ''LIST'' \<and>
   Run_body testEnv ''LIST\<newline>'' freshServer =
     Inr (Continue (freshServer\<lparr>output :=
       Some (''command_error: First command must be HELLO, but got ''
             @ [CHR 0x27] @ ''LIST'' @ [CHR 0x27, CHR 0x0A])\<rparr>))"
proof -
  have i: "\<not> initialized freshServer" by (simp add: freshServer_def NewServer_def)
  have "Run_body testEnv ''LIST\<newline>'' freshServer =
      andThen (send testEnv (messageError ''command_error''
                (''First command must be HELLO, but got '' @ [CHR 0x27] @ ''LIST'' @ [CHR 0x27])) freshServer)
       (\<lambda>d'. Inr (Continue d'))"
    using Run_body_guard[OF i, of testEnv "''LIST\<newline>''"] unfolding command_LIST by simp
  also have "\<dots> = Inr (Continue (freshServer\<lparr>output :=
       Some (''command_error: First command must be HELLO, but got ''
             @ [CHR 0x27] @ ''LIST'' @ [CHR 0x27, CHR 0x0A])\<rparr>))"
    by (simp add: andThen_def send_def send_data_def Let_def messageError_def
        testEnv_def plainMarshal_def freshServer_def NewServer_def)
  finally show ?thesis using command_LIST by blast
qed


text \<open>
  C3. A command that arrives in a phase where it is not allowed (anything but \<open>HELLO\<close>
  and \<open>QUIT\<close> before initialization, a second \<open>HELLO\<close>, \<open>START\<close> or
  \<open>START_SYNC\<close> while started or syncStarted, \<open>LIST\<close> when not started or when
  syncStarted, \<open>STOP\<close> when neither) is answered by one reply with \<open>error: true\<close>,
  the loop goes on, and no field of the session but the output stream changes; the
  implementation is not called.
\<close>

theorem C3_forbidden_command_rejected:
  assumes "cmd = command E line"
    and "(\<not> initialized d \<and> cmd \<noteq> ''HELLO'' \<and> cmd \<noteq> ''QUIT'')
       \<or> (initialized d \<and> cmd = ''HELLO'')
       \<or> ((started d \<or> syncStarted d) \<and> (cmd = ''START'' \<or> cmd = ''START_SYNC''))
       \<or> ((\<not> started d \<or> syncStarted d) \<and> cmd = ''LIST'')
       \<or> (\<not> started d \<and> \<not> syncStarted d \<and> cmd = ''STOP'')"
  shows "\<exists>reply. Error reply \<and>
           (case send E reply d of
              Inl p \<Rightarrow> Run_body E line d = Inl p
            | Inr d' \<Rightarrow>
                Run_body E line d = Inr (Continue d') \<and>
                initialized d' = initialized d \<and> started d' = started d \<and>
                syncStarted d' = syncStarted d \<and> cachedPorts d' = cachedPorts d \<and>
                cachedErr d' = cachedErr d \<and> userAgent d' = userAgent d \<and>
                reqProtocolVersion d' = reqProtocolVersion d \<and> impl d' = impl d)"
proof -
  from forbidden_command_one_reply[OF assms] obtain reply where r: "Error reply"
    "Run_body E line d = andThen (send E reply d) (\<lambda>d'. Inr (Continue d'))" by blast
  show ?thesis
  proof (intro exI[of _ reply] conjI r(1))
    show "case send E reply d of
              Inl p \<Rightarrow> Run_body E line d = Inl p
            | Inr d' \<Rightarrow>
                Run_body E line d = Inr (Continue d') \<and>
                initialized d' = initialized d \<and> started d' = started d \<and>
                syncStarted d' = syncStarted d \<and> cachedPorts d' = cachedPorts d \<and>
                cachedErr d' = cachedErr d \<and> userAgent d' = userAgent d \<and>
                reqProtocolVersion d' = reqProtocolVersion d \<and> impl d' = impl d"
    proof (cases "send E reply d")
      case (Inl p)
      then show ?thesis using r(2) by (simp add: andThen_def)
    next
      case (Inr d')
      then show ?thesis using r(2) send_frame_fields[OF Inr] by (simp add: andThen_def)
    qed
  qed
qed

theorem C3_forbidden_command_rejected_witness:
  "\<exists>reply. Error reply \<and>
           (case send testEnv reply freshServer of
              Inl p \<Rightarrow> Run_body testEnv ''LIST\<newline>'' freshServer = Inl p
            | Inr d' \<Rightarrow>
                Run_body testEnv ''LIST\<newline>'' freshServer = Inr (Continue d') \<and>
                initialized d' = initialized freshServer \<and> started d' = started freshServer \<and>
                syncStarted d' = syncStarted freshServer \<and> cachedPorts d' = cachedPorts freshServer \<and>
                cachedErr d' = cachedErr freshServer \<and> userAgent d' = userAgent freshServer \<and>
                reqProtocolVersion d' = reqProtocolVersion freshServer \<and> impl d' = impl freshServer)"
proof -
  have h: "(\<not> initialized freshServer \<and> ''LIST'' \<noteq> ''HELLO'' \<and> ''LIST'' \<noteq> ''QUIT'')
       \<or> (initialized freshServer \<and> ''LIST'' = ''HELLO'')
       \<or> ((started freshServer \<or> syncStarted freshServer) \<and> (''LIST'' = ''START'' \<or> ''LIST'' = ''START_SYNC''))
       \<or> ((\<not> started freshServer \<or> syncStarted freshServer) \<and> ''LIST'' = ''LIST'')
       \<or> (\<not> started freshServer \<and> \<not> syncStarted freshServer \<and> ''LIST'' = ''STOP'')"
    by (simp add: freshServer_def NewServer_def)
  show ?thesis
    by (rule C3_forbidden_command_rejected [OF command_LIST [symmetric] h])
qed


text \<open>
  C4. A line whose command is \<open>QUIT\<close>, in any state of the session: \<open>Quit\<close> of the
  implementation is called, the reply \<open>messageOk quit\<close> (event type \<open>quit\<close>, message
  \<open>OK\<close>) is sent, and \<open>Run\<close> returns nil without reading on. (Should the write
  fail, \<open>send\<close> panics, as for every message.)
\<close>

theorem C4_quit_in_any_state:
  assumes "ReadString (CHR 0x0A) reader = ((line, None), reader')"
    and "command E line = ''QUIT''"
  shows "Run_loop E reader d =
           andThen (send E (messageOk ''quit'') (d\<lparr>impl := Quit E (impl d)\<rparr>))
             (\<lambda>d'. Inr (None, d'))"
  using assms
  by (subst Run_loop.simps) (simp add: Run_body_QUIT Let_def andThen_def split: sum.splits)

theorem C4_quit_in_any_state_witness:
  "Run_loop testEnv \<lparr>pending = ''quit\<newline>'', failure = ''EOF''\<rparr> freshServer =
     Inr (None, freshServer\<lparr>output := Some ''quit: OK\<newline>''\<rparr>)"
proof -
  have h1: "ReadString (CHR 0x0A) \<lparr>pending = ''quit\<newline>'', failure = ''EOF''\<rparr>
      = ((''quit\<newline>'', None), \<lparr>pending = [], failure = ''EOF''\<rparr>)"
    by (simp add: ReadString_def)
  have h2: "command testEnv ''quit\<newline>'' = ''QUIT''"
    by (simp add: command_def testEnv_def asciiTrimSpace_def asciiToUpper_def isSpace_def)
  show ?thesis
    unfolding C4_quit_in_any_state [OF h1 h2]
    by (simp add: andThen_def send_def send_data_def Let_def messageOk_def
        testEnv_def plainMarshal_def freshServer_def NewServer_def)
qed

subsection \<open>HELLO\<close>

text \<open>
  The matcher is the regular expression: it yields the groups \<open>ds\<close> and \<open>agent\<close>
  exactly on the strings \<open>ds "agent"\<close> with \<open>ds\<close> a non-empty run of digits and
  \<open>agent\<close> a non-empty string without a double quote; and on a run of digits
  \<open>ParseInt\<close> fails exactly from \<open>2^63\<close> on.
\<close>

lemma isDigit_space: "\<not> isDigit (CHR '' '')"
  by (simp add: isDigit_def)

lemma helloSubmatch_form:
  assumes "ds \<noteq> []" "list_all isDigit ds" "agent \<noteq> []" "CHR 0x22 \<notin> set agent"
  shows "helloSubmatch (ds @ '' '' @ [CHR 0x22] @ agent @ [CHR 0x22]) = Some (ds, agent)"
proof -
  have d: "\<And>x. x \<in> set ds \<Longrightarrow> isDigit x"
    using assms(2) by (simp add: list_all_iff)
  have t1: "takeWhile isDigit (ds @ CHR '' '' # CHR 0x22 # agent @ [CHR 0x22]) = ds"
    using d by (simp add: takeWhile_append2 isDigit_space)
  have d1: "dropWhile isDigit (ds @ CHR '' '' # CHR 0x22 # agent @ [CHR 0x22])
      = CHR '' '' # CHR 0x22 # agent @ [CHR 0x22]"
    using d by (simp add: dropWhile_append2 isDigit_space)
  have a: "\<And>x. x \<in> set agent \<Longrightarrow> x \<noteq> CHR 0x22"
    using assms(4) by blast
  have t2: "takeWhile (\<lambda>c. c \<noteq> CHR 0x22) (agent @ [CHR 0x22]) = agent"
    using a by (simp add: takeWhile_append2)
  have d2: "dropWhile (\<lambda>c. c \<noteq> CHR 0x22) (agent @ [CHR 0x22]) = [CHR 0x22]"
    using a by (simp add: dropWhile_append2)
  show ?thesis
    using assms(1,3) by (simp add: helloSubmatch_def Let_def t1 d1 t2 d2)
qed

lemma helloSubmatch_Some:
  assumes "helloSubmatch cmd = Some (ds, agent)"
  shows "cmd = ds @ '' '' @ [CHR 0x22] @ agent @ [CHR 0x22]
    \<and> ds \<noteq> [] \<and> list_all isDigit ds \<and> agent \<noteq> [] \<and> CHR 0x22 \<notin> set agent"
proof -
  let ?r1 = "dropWhile isDigit cmd"
  from assms have ds: "ds = takeWhile isDigit cmd" and ne: "ds \<noteq> []"
    by (auto simp: helloSubmatch_def Let_def split: if_splits list.splits)
  from assms obtain r2 where r1: "?r1 = CHR '' '' # CHR 0x22 # r2"
    by (auto simp: helloSubmatch_def Let_def split: if_splits list.splits)
  from assms r1 have ag: "agent = takeWhile (\<lambda>c. c \<noteq> CHR 0x22) r2"
    and r3: "dropWhile (\<lambda>c. c \<noteq> CHR 0x22) r2 = [CHR 0x22]" and ane: "agent \<noteq> []"
    by (auto simp: helloSubmatch_def Let_def split: if_splits)
  have "cmd = ds @ ?r1" by (simp add: ds)
  moreover have "r2 = agent @ [CHR 0x22]"
    using takeWhile_dropWhile_id[of "\<lambda>c. c \<noteq> CHR 0x22" r2] ag r3 by simp
  moreover have "list_all isDigit ds"
    unfolding ds list_all_iff using set_takeWhileD by fastforce
  moreover have "CHR 0x22 \<notin> set agent"
    unfolding ag using set_takeWhileD by fastforce
  ultimately show ?thesis using r1 ne ane by simp
qed

lemma ParseInt_digits:
  assumes "ds \<noteq> []" "list_all isDigit ds"
  shows "ParseInt ds = (if 2 ^ 63 \<le> decimal ds then Inl ErrRange else Inr (int (decimal ds)))"
  using assms by (simp add: ParseInt_def)


text \<open>
  C5. On a session that is not initialized, a \<open>HELLO\<close> payload of the form
  \<open>ds "agent"\<close> whose digits do not parse as a 64-bit integer is answered by the
  \<open>hello\<close> error \<open>Invalid protocol version: agent\<close>, with the agent and not the
  digits; the user agent has been stored by then, and the session stays uninitialized.
\<close>

theorem C5_hello_version_out_of_range:
  assumes "\<not> initialized d"
    and "ds \<noteq> []" "list_all isDigit ds" "agent \<noteq> []" "CHR 0x22 \<notin> set agent"
    and "ParseInt ds = Inl e"
  shows "hello E (ds @ '' '' @ [CHR 0x22] @ agent @ [CHR 0x22]) d =
           send E (messageError ''hello'' (''Invalid protocol version: '' @ agent))
             (d\<lparr>userAgent := agent\<rparr>)
       \<and> (case hello E (ds @ '' '' @ [CHR 0x22] @ agent @ [CHR 0x22]) d of
            Inl p \<Rightarrow> True
          | Inr d' \<Rightarrow> \<not> initialized d')"
proof -
  have eq: "hello E (ds @ '' '' @ [CHR 0x22] @ agent @ [CHR 0x22]) d =
           send E (messageError ''hello'' (''Invalid protocol version: '' @ agent))
             (d\<lparr>userAgent := agent\<rparr>)"
    unfolding hello_def helloSubmatch_form[OF assms(2-5)] using assms(1,6) by (simp add: Let_def)
  have "\<not> initialized d'" if "send E m (d\<lparr>userAgent := agent\<rparr>) = Inr d'" for m d'
    using send_frame_fields[OF that] assms(1) by simp
  with eq show ?thesis by (auto split: sum.splits)
qed


theorem C5_hello_version_out_of_range_witness:
  "hello testEnv (''9223372036854775808'' @ '' '' @ [CHR 0x22] @ ''arduino-cli'' @ [CHR 0x22]) freshServer =
     send testEnv (messageError ''hello'' (''Invalid protocol version: '' @ ''arduino-cli''))
             (freshServer\<lparr>userAgent := ''arduino-cli''\<rparr>)
   \<and> (case hello testEnv (''9223372036854775808'' @ '' '' @ [CHR 0x22] @ ''arduino-cli'' @ [CHR 0x22]) freshServer of
            Inl p \<Rightarrow> True
          | Inr d' \<Rightarrow> \<not> initialized d')"
proof -
  have h1: "\<not> initialized freshServer" by (simp add: freshServer_def NewServer_def)
  have h2: "''9223372036854775808'' \<noteq> []" by simp
  have h3: "list_all isDigit ''9223372036854775808''" by (simp add: isDigit_def)
  have h4: "''arduino-cli'' \<noteq> []" by simp
  have h5: "CHR 0x22 \<notin> set ''arduino-cli''" by simp
  have h6: "ParseInt ''9223372036854775808'' = Inl ErrRange"
    by (simp add: ParseInt_def isDigit_def decimal_def digitVal_def)
  show ?thesis by (rule C5_hello_version_out_of_range [OF h1 h2 h3 h4 h5 h6])
qed

subsection \<open>Polling mode\<close>

lemma start_success:
  assumes "\<not> started d0" and "start E d0 = Inr d1" and "started d1"
  shows "cachedPorts d1 = Some [] \<and> cachedErr d1 = [] \<and> \<not> syncStarted d1"
proof (cases "syncStarted d0")
  case True
  with assms(1,2) have "send E (messageError ''start'' ''Discovery already START_SYNCed, cannot START'') d0 = Inr d1"
    by (simp add: start_def)
  from send_frame_fields[OF this] assms(1,3) show ?thesis by simp
next
  case False
  let ?d = "d0\<lparr>cachedPorts := Some [], cachedErr := []\<rparr>"
  obtain r i' where s: "StartSync E (impl ?d) = (r, i')" by (cases "StartSync E (impl ?d)")
  show ?thesis
  proof (cases r)
    case None
    with s False assms(1,2) have "send E (messageOk ''start'') (?d\<lparr>impl := i', started := True\<rparr>) = Inr d1"
      by (simp add: start_def Let_def)
    from send_frame_fields[OF this] False show ?thesis by simp
  next
    case (Some err)
    with s False assms(1,2) have "send E (messageError ''start'' (''Cannot START: '' @ err)) (?d\<lparr>impl := i'\<rparr>) = Inr d1"
      by (simp add: start_def Let_def)
    from send_frame_fields[OF this] assms(1,3) show ?thesis by simp
  qed
qed

lemma eventCallbacks_append:
  "eventCallbacks (xs @ ys) d = andThen (eventCallbacks xs d) (eventCallbacks ys)"
  by (induction xs arbitrary: d) (auto simp: andThen_def split: sum.splits)

lemma lastSeen_snoc:
  "lastSeen k (evs @ [e]) = (if Address (snd e) @ ''|'' @ Protocol (snd e) = k then Some e else lastSeen k evs)"
  by (simp add: lastSeen_def)

lemma lastSeen_key: "lastSeen k evs = Some e \<Longrightarrow> Address (snd e) @ ''|'' @ Protocol (snd e) = k"
  by (auto simp: lastSeen_def find_Some_iff)

lemma eventCallback_add:
  "cachedPorts d = Some m \<Longrightarrow>
   eventCallback ''add'' (Some p) d = Inr (d\<lparr>cachedPorts := Some (AList.update (Address p @ ''|'' @ Protocol p) p m)\<rparr>)"
  by (simp add: eventCallback_def Let_def andThen_def)

lemma eventCallback_remove:
  "cachedPorts d = Some m \<Longrightarrow>
   eventCallback ''remove'' (Some p) d = Inr (d\<lparr>cachedPorts := Some (AList.delete (Address p @ ''|'' @ Protocol p) m)\<rparr>)"
  by (simp add: eventCallback_def Let_def andThen_def)

lemma callbacks_cache:
  assumes "cachedPorts d = Some m0"
    and "\<forall>e\<in>set evs. fst e = ''add'' \<or> fst e = ''remove''"
  shows "\<exists>m. eventCallbacks (map (\<lambda>e. (fst e, Some (snd e))) evs) d = Inr (d\<lparr>cachedPorts := Some m\<rparr>)
      \<and> (distinct (map fst m0) \<longrightarrow> distinct (map fst m))
      \<and> (\<forall>k. map_of m k =
            (case lastSeen k evs of
               None \<Rightarrow> map_of m0 k
             | Some e \<Rightarrow> if fst e = ''add'' then Some (snd e) else None))"
  using assms(2)
proof (induction evs rule: rev_induct)
  case Nil
  have "d\<lparr>cachedPorts := Some m0\<rparr> = d" using assms(1) by simp
  then show ?case by (intro exI[of _ m0]) (simp add: lastSeen_def)
next
  case (snoc e evs)
  then obtain m where m: "eventCallbacks (map (\<lambda>e. (fst e, Some (snd e))) evs) d = Inr (d\<lparr>cachedPorts := Some m\<rparr>)"
    and dm: "distinct (map fst m0) \<longrightarrow> distinct (map fst m)"
    and mo: "\<And>k. map_of m k = (case lastSeen k evs of None \<Rightarrow> map_of m0 k
             | Some e \<Rightarrow> if fst e = ''add'' then Some (snd e) else None)"
    by auto
  let ?d = "d\<lparr>cachedPorts := Some m\<rparr>"
  have c: "cachedPorts ?d = Some m" by simp
  obtain ev p where e: "e = (ev, p)" by (cases e)
  from snoc.prems e have ev: "ev = ''add'' \<or> ev = ''remove''" by simp
  show ?case
  proof (cases "ev = ''add''")
    case True
    let ?m = "AList.update (Address p @ ''|'' @ Protocol p) p m"
    have "eventCallbacks (map (\<lambda>e. (fst e, Some (snd e))) (evs @ [e])) d = Inr (d\<lparr>cachedPorts := Some ?m\<rparr>)"
      using m e True eventCallback_add[OF c, of p] by (simp add: eventCallbacks_append andThen_def)
    moreover have "distinct (map fst m0) \<longrightarrow> distinct (map fst ?m)"
      using dm by (simp add: distinct_update)
    moreover have "map_of ?m k = (case lastSeen k (evs @ [e]) of None \<Rightarrow> map_of m0 k
             | Some e \<Rightarrow> if fst e = ''add'' then Some (snd e) else None)" for k
      using mo[of k] e True by (simp add: lastSeen_snoc update_conv')
    ultimately show ?thesis by blast
  next
    case False
    with ev have r: "ev = ''remove''" by simp
    let ?m = "AList.delete (Address p @ ''|'' @ Protocol p) m"
    have "eventCallbacks (map (\<lambda>e. (fst e, Some (snd e))) (evs @ [e])) d = Inr (d\<lparr>cachedPorts := Some ?m\<rparr>)"
      using m e r eventCallback_remove[OF c, of p] by (simp add: eventCallbacks_append andThen_def)
    moreover have "distinct (map fst m0) \<longrightarrow> distinct (map fst ?m)"
      using dm by (simp add: distinct_delete)
    moreover have "map_of ?m k = (case lastSeen k (evs @ [e]) of None \<Rightarrow> map_of m0 k
             | Some e \<Rightarrow> if fst e = ''add'' then Some (snd e) else None)" for k
      using mo[of k] e r by (simp add: lastSeen_snoc delete_conv')
    ultimately show ?thesis by blast
  qed
qed


text \<open>
  C1. After a successful \<open>START\<close> (the server was not started, \<open>start\<close> returns and
  the server is started), let the implementation call the event callback with any finite
  sequence of \<open>add\<close> and \<open>remove\<close> events on ports. No call panics. The cache then
  holds, under the key address, bar, protocol of each, exactly the ports \<open>p\<close> such that
  the last event seen for the key of \<open>p\<close> is \<open>add p\<close>, no two of them under the same
  key, and the next \<open>LIST\<close> sends one \<open>list\<close> message with these ports.
\<close>

theorem C1_list_after_callbacks:
  assumes "\<not> started d0" and "start E d0 = Inr d1" and "started d1"
    and "\<forall>e\<in>set evs. fst e = ''add'' \<or> fst e = ''remove''"
  shows "\<exists>d2 ports.
      eventCallbacks (map (\<lambda>e. (fst e, Some (snd e))) evs) d1 = Inr d2
    \<and> cachedPorts d2 = Some (map (\<lambda>p. (Address p @ ''|'' @ Protocol p, p)) ports)
    \<and> list E d2 = send E \<lparr>EventType = ''list'', Message = [], Error = False,
                          ProtocolVersion = 0, Port = None, Ports = Some ports\<rparr> d2
    \<and> set ports = {p. lastSeen (Address p @ ''|'' @ Protocol p) evs = Some (''add'', p)}
    \<and> distinct (map (\<lambda>p. Address p @ ''|'' @ Protocol p) ports)"
proof -
  from start_success[OF assms(1-3)] have s: "cachedPorts d1 = Some []" "cachedErr d1 = []"
    "\<not> syncStarted d1" by simp_all
  from callbacks_cache[OF s(1) assms(4)] obtain m where
    m: "eventCallbacks (map (\<lambda>e. (fst e, Some (snd e))) evs) d1 = Inr (d1\<lparr>cachedPorts := Some m\<rparr>)"
    and dm0: "distinct (map fst ([] :: (string \<times> Port) list)) \<longrightarrow> distinct (map fst m)"
    and mo0: "\<forall>k. map_of m k = (case lastSeen k evs of None \<Rightarrow> map_of [] k
             | Some e \<Rightarrow> if fst e = ''add'' then Some (snd e) else None)"
    by blast
  from dm0 have dm: "distinct (map fst m)" by simp
  from mo0 have mo: "map_of m k = (case lastSeen k evs of None \<Rightarrow> None
             | Some e \<Rightarrow> if fst e = ''add'' then Some (snd e) else None)" for k
    by (simp split: option.splits)
  let ?d2 = "d1\<lparr>cachedPorts := Some m\<rparr>"
  let ?ports = "map snd m"
  have l: "list E ?d2 = send E \<lparr>EventType = ''list'', Message = [], Error = False,
                          ProtocolVersion = 0, Port = None, Ports = Some ?ports\<rparr> ?d2"
    using assms(3) s by (simp add: list_def Let_def)
  have key: "k = Address p @ ''|'' @ Protocol p" if "(k, p) \<in> set m" for k p
  proof -
    from that dm have "map_of m k = Some p" by simp
    with mo[of k] obtain e where "lastSeen k evs = Some e" "snd e = p"
      by (auto split: option.splits if_splits)
    with lastSeen_key show ?thesis by blast
  qed
  have key': "Address (snd x) @ ''|'' @ Protocol (snd x) = fst x" if "x \<in> set m" for x
    using key[of "fst x" "snd x"] that by simp
  have pk: "map (\<lambda>p. Address p @ ''|'' @ Protocol p) ?ports = map fst m"
    using key' by (simp add: comp_def cong: map_cong)
  have dk: "distinct (map (\<lambda>p. Address p @ ''|'' @ Protocol p) ?ports)"
    unfolding pk by (rule dm)
  have "map (\<lambda>p. (Address p @ ''|'' @ Protocol p, p)) ?ports = map (\<lambda>x. x) m"
    unfolding map_map comp_def
  proof (rule map_cong[OF refl])
    fix x assume "x \<in> set m"
    from key'[OF this] show "(Address (snd x) @ ''|'' @ Protocol (snd x), snd x) = x"
      by (simp add: prod_eq_iff)
  qed
  then have cp: "cachedPorts ?d2 = Some (map (\<lambda>p. (Address p @ ''|'' @ Protocol p, p)) ?ports)"
    by simp
  have st: "set ?ports = {p. lastSeen (Address p @ ''|'' @ Protocol p) evs = Some (''add'', p)}"
  proof (intro set_eqI iffI)
    fix p assume "p \<in> set ?ports"
    then obtain k where kp: "(k, p) \<in> set m" by auto
    with dm have "map_of m k = Some p" by simp
    with mo[of k] have "lastSeen k evs = Some (''add'', p)"
      by (auto split: option.splits if_splits simp: prod_eq_iff)
    with key[OF kp] show "p \<in> {p. lastSeen (Address p @ ''|'' @ Protocol p) evs = Some (''add'', p)}"
      by simp
  next
    fix p assume "p \<in> {p. lastSeen (Address p @ ''|'' @ Protocol p) evs = Some (''add'', p)}"
    then have "map_of m (Address p @ ''|'' @ Protocol p) = Some p"
      using mo[of "Address p @ ''|'' @ Protocol p"] by simp
    then have "(Address p @ ''|'' @ Protocol p, p) \<in> set m" by (rule map_of_SomeD)
    then show "p \<in> set ?ports" by force
  qed
  from m cp l st dk show ?thesis by blast
qed

theorem C1_list_after_callbacks_witness:
  "eventCallbacks (map (\<lambda>e. (fst e, Some (snd e))) dummyEvents) startedServer =
     Inr (startedServer\<lparr>cachedPorts :=
            Some [(''2|dummy'', createDummyPort ''2''), (''3|dummy'', createDummyPort ''3'')]\<rparr>)
   \<and> list testEnv (startedServer\<lparr>cachedPorts :=
            Some [(''2|dummy'', createDummyPort ''2''), (''3|dummy'', createDummyPort ''3'')]\<rparr>) =
       send testEnv \<lparr>EventType = ''list'', Message = [], Error = False, ProtocolVersion = 0,
                      Port = None, Ports = Some [createDummyPort ''2'', createDummyPort ''3'']\<rparr>
         (startedServer\<lparr>cachedPorts :=
            Some [(''2|dummy'', createDummyPort ''2''), (''3|dummy'', createDummyPort ''3'')]\<rparr>)
   \<and> {p. lastSeen (Address p @ ''|'' @ Protocol p) dummyEvents = Some (''add'', p)} =
       {createDummyPort ''2'', createDummyPort ''3''}"
proof -
  let ?X = "startedServer\<lparr>cachedPorts :=
            Some [(''2|dummy'', createDummyPort ''2''), (''3|dummy'', createDummyPort ''3'')]\<rparr>"
  have h1: "\<not> started freshServer" by (simp add: freshServer_def NewServer_def)
  have h2: "start testEnv freshServer = Inr startedServer"
    by (simp add: start_def send_def send_data_def Let_def messageOk_def startedServer_def
        testEnv_def plainMarshal_def dummyStartSync_def freshServer_def NewServer_def)
  have h3: "started startedServer" by (simp add: startedServer_def)
  have h4: "\<forall>e\<in>set dummyEvents. fst e = ''add'' \<or> fst e = ''remove''"
    by (simp add: dummyEvents_def)
  have run: "eventCallbacks (map (\<lambda>e. (fst e, Some (snd e))) dummyEvents) startedServer = Inr ?X"
    by (simp add: dummyEvents_def eventCallback_def andThen_def createDummyPort_def startedServer_def)
  from C1_list_after_callbacks [OF h1 h2 h3 h4] obtain d2 ports where
    a: "eventCallbacks (map (\<lambda>e. (fst e, Some (snd e))) dummyEvents) startedServer = Inr d2"
    and b: "cachedPorts d2 = Some (map (\<lambda>p. (Address p @ ''|'' @ Protocol p, p)) ports)"
    and c: "list testEnv d2 = send testEnv \<lparr>EventType = ''list'', Message = [], Error = False,
                          ProtocolVersion = 0, Port = None, Ports = Some ports\<rparr> d2"
    and d: "set ports = {p. lastSeen (Address p @ ''|'' @ Protocol p) dummyEvents = Some (''add'', p)}"
    by blast
  from a run have d2: "d2 = ?X" by simp
  from b have "map (\<lambda>p. (Address p @ ''|'' @ Protocol p, p)) ports
      = [(''2|dummy'', createDummyPort ''2''), (''3|dummy'', createDummyPort ''3'')]"
    unfolding d2 by simp
  then have "map snd (map (\<lambda>p. (Address p @ ''|'' @ Protocol p, p)) ports)
      = map snd [(''2|dummy'', createDummyPort ''2''), (''3|dummy'', createDummyPort ''3'')]"
    by (rule arg_cong)
  then have ports: "ports = [createDummyPort ''2'', createDummyPort ''3'']"
    by (simp add: comp_def)
  from run c d show ?thesis unfolding d2 ports by simp
qed


section \<open>Theorems about the client\<close>

subsection \<open>Frames\<close>

lemma andThen_Inr_iff:
  "andThen r f = Inr y \<longleftrightarrow> (\<exists>x. r = Inr x \<and> f x = Inr y)"
  by (cases r) (simp_all add: andThen_def)

lemma andThen_Inr [simp]: "andThen (Inr x) f = f x"
  by (simp add: andThen_def)

lemma andThen_Inl [simp]: "andThen (Inl p) f = Inl p"
  by (simp add: andThen_def)

lemma Lock_held [simp]: "statusMutex c \<Longrightarrow> Lock c = Inl Blocks"
  by (simp add: Lock_def)

lemma Lock_free:
  "\<not> statusMutex c \<Longrightarrow> Lock c = Inr (c\<lparr>statusMutex := True, trace := trace c @ [Acquire]\<rparr>)"
  by (simp add: Lock_def)

lemma Unlock_held:
  "statusMutex c \<Longrightarrow> Unlock c = Inr (c\<lparr>statusMutex := False, trace := trace c @ [Release]\<rparr>)"
  by (simp add: Unlock_def)

lemma decodeStep_held:
  assumes "statusMutex c"
  shows "decodeStep r c = Inl Blocks \<or> (\<exists>m. decodeStep r c = Inr (Forwarded m, c))"
  using assms
  by (cases r) (auto simp: decodeStep_def forwardEvent_def closeAndReportError_def)

lemma waitLoop_held:
  assumes "statusMutex c" and "waitLoop rs c = Inr (r, c')"
  shows "c' = c\<lparr>incoming := incoming c'\<rparr>"
proof (cases rs)
  case Nil
  with assms(2) show ?thesis by auto
next
  case (Cons x xs)
  from assms(1) have h: "statusMutex (c\<lparr>incoming := xs\<rparr>)" by simp
  from decodeStep_held[OF h, of x] assms(2) Cons show ?thesis
    by (elim disjE exE) auto
qed

lemma waitMessage_held:
  assumes "statusMutex c" and "waitMessage c = Inr (r, c')"
  shows "c' = c\<lparr>incoming := incoming c'\<rparr>"
proof (cases "incomingMessagesChan c")
  case None
  with assms(2) show ?thesis by (auto simp: waitMessage_def)
next
  case (Some b)
  show ?thesis
  proof (cases b)
    case True
    with Some assms(2) show ?thesis by (auto simp: waitMessage_def)
  next
    case False
    with Some assms(2) have "waitLoop (incoming c) c = Inr (r, c')" by (simp add: waitMessage_def)
    from waitLoop_held[OF assms(1) this] show ?thesis .
  qed
qed

lemma sendLoop_frame:
  "sendLoop data ws c = Inr (e, c') \<Longrightarrow> c' = c\<lparr>pipeWrites := pipeWrites c', written := written c'\<rparr>"
proof (induction data ws c rule: sendLoop.induct)
  case (1 data c)
  then show ?case by simp
next
  case (2 data n err ws c)
  let ?c1 = "c\<lparr>pipeWrites := ws, written := written c @ take (nat n) data\<rparr>"
  show ?case
  proof (cases "err \<noteq> None \<or> n = int (length data)")
    case True
    with "2.prems" show ?thesis by (auto simp: Let_def split: if_splits)
  next
    case False
    with "2.prems" have ok: "\<not> (n < 0 \<or> int (length data) < n)"
      and rec: "sendLoop (drop (nat n) data) ws ?c1 = Inr (e, c')"
      by (auto simp: Let_def split: if_splits)
    from "2.IH"[OF refl _ _ _ rec] False ok have "c' = ?c1\<lparr>pipeWrites := pipeWrites c', written := written c'\<rparr>"
      by simp
    then show ?thesis by simp
  qed
qed

lemma sendCommand_frame:
  "sendCommand cmd c = Inr (e, c') \<Longrightarrow> c' = c\<lparr>pipeWrites := pipeWrites c', written := written c'\<rparr>"
  by (auto simp: sendCommand_def split: if_splits dest: sendLoop_frame)

lemma sendCommand_fields:
  assumes "sendCommand cmd c = Inr (e, c')"
  shows "statusMutex c' = statusMutex c \<and> chans c' = chans c \<and> eventChan c' = eventChan c
     \<and> discoveryID c' = discoveryID c \<and> trace c' = trace c \<and> process c' = process c
     \<and> incoming c' = incoming c \<and> incomingMessagesChan c' = incomingMessagesChan c
     \<and> incomingMessagesError c' = incomingMessagesError c"
proof -
  from sendCommand_frame[OF assms] obtain p w where "c' = c\<lparr>pipeWrites := p, written := w\<rparr>"
    by blast
  then show ?thesis by simp
qed

lemma waitMessage_held_fields:
  assumes "statusMutex c" and "waitMessage c = Inr (r, c')"
  shows "statusMutex c' \<and> chans c' = chans c \<and> eventChan c' = eventChan c
     \<and> discoveryID c' = discoveryID c \<and> trace c' = trace c \<and> process c' = process c"
proof -
  from waitMessage_held[OF assms] obtain i where "c' = c\<lparr>incoming := i\<rparr>"
    by blast
  then show ?thesis using assms(1) by simp
qed

lemma stopSync_None: "eventChan c = None \<Longrightarrow> stopSync c = Inr c"
  by (simp add: stopSync_def)

lemma stopSync_Some:
  assumes "eventChan c = Some ch" "ch < length (chans c)" "\<not> closed (chans c ! ch)"
  shows "stopSync c =
     Inr (c\<lparr>chans := (chans c)[ch := (chans c ! ch)
                \<lparr>sent := sent (chans c ! ch) @ [Event ''stop'' None (discoveryID c)], closed := True\<rparr>],
            trace := trace c @ [ChanSend ch (Event ''stop'' None (discoveryID c)), ChanClose ch],
            eventChan := None\<rparr>)"
  using assms by (simp add: stopSync_def chanSend_def chanClose_def)

lemma StartSync_success:
  assumes "Client_StartSync U sz c = Inr ((Some new, None), c')"
  shows "\<exists>c2 c3. \<not> statusMutex c \<and> statusMutex c2 \<and> chans c2 = chans c \<and> eventChan c2 = eventChan c
      \<and> discoveryID c2 = discoveryID c \<and> trace c2 = trace c @ [Acquire] \<and> 0 \<le> sz
      \<and> stopSync c2 = Inr c3 \<and> new = length (chans c3)
      \<and> Unlock (c3\<lparr>chans := chans c3 @ [\<lparr>sent = [], capacity = sz, closed = False\<rparr>],
                      eventChan := Some (length (chans c3))\<rparr>) = Inr c'"
proof -
  from assms have free: "\<not> statusMutex c"
    by (auto simp: Client_StartSync_def Lock_def split: if_splits)
  let ?c0 = "c\<lparr>statusMutex := True, trace := trace c @ [Acquire]\<rparr>"
  from assms free obtain e1 c1 where s: "sendCommand ''START_SYNC\<newline>'' ?c0 = Inr (e1, c1)"
    and r1: "(if e1 \<noteq> None then unlocking (None, e1) c1
          else andThen (waitMessage c1)
            (\<lambda>(r, c2).
               andThen (checkReply U ''START_SYNC'' ''evemt'' ''start_sync'' r)
                 (\<lambda>e. if e \<noteq> None then unlocking (None, e) c2
                      else andThen (stopSync c2) (\<lambda>c3.
                           if sz < 0 then Inl MakeChanSize
                           else unlocking (Some (length (chans c3)), None)
                                  (c3\<lparr>chans := chans c3 @ [\<lparr>sent = [], capacity = sz, closed = False\<rparr>],
                                      eventChan := Some (length (chans c3))\<rparr>))))) = Inr ((Some new, None), c')"
    unfolding Client_StartSync_def Lock_free[OF free] by (auto simp: andThen_Inr_iff)
  have e1: "e1 = None"
    using r1 by (auto simp: unlocking_def andThen_Inr_iff split: if_splits)
  from sendCommand_fields[OF s] have c1: "statusMutex c1" "chans c1 = chans c" "eventChan c1 = eventChan c"
    "discoveryID c1 = discoveryID c" "trace c1 = trace c @ [Acquire]"
    by simp_all
  from r1 e1 obtain r c2 where w: "waitMessage c1 = Inr (r, c2)"
    and r2: "andThen (checkReply U ''START_SYNC'' ''evemt'' ''start_sync'' r)
                 (\<lambda>e. if e \<noteq> None then unlocking (None, e) c2
                      else andThen (stopSync c2) (\<lambda>c3.
                           if sz < 0 then Inl MakeChanSize
                           else unlocking (Some (length (chans c3)), None)
                                  (c3\<lparr>chans := chans c3 @ [\<lparr>sent = [], capacity = sz, closed = False\<rparr>],
                                      eventChan := Some (length (chans c3))\<rparr>))) = Inr ((Some new, None), c')"
    by (auto simp: andThen_Inr_iff)
  from waitMessage_held_fields[OF c1(1) w] c1 have c2: "statusMutex c2" "chans c2 = chans c" "eventChan c2 = eventChan c"
    "discoveryID c2 = discoveryID c" "trace c2 = trace c @ [Acquire]"
    by simp_all
  from r2 obtain c3 where st: "stopSync c2 = Inr c3" and sz: "0 \<le> sz"
    and u: "unlocking (Some (length (chans c3)), None)
                                  (c3\<lparr>chans := chans c3 @ [\<lparr>sent = [], capacity = sz, closed = False\<rparr>],
                                      eventChan := Some (length (chans c3))\<rparr>) = Inr ((Some new, None), c')"
    by (auto simp: andThen_Inr_iff unlocking_def split: if_splits)
  from u have "new = length (chans c3)"
    and "Unlock (c3\<lparr>chans := chans c3 @ [\<lparr>sent = [], capacity = sz, closed = False\<rparr>],
                      eventChan := Some (length (chans c3))\<rparr>) = Inr c'"
    by (auto simp: unlocking_def andThen_Inr_iff)
  with free c2 sz st show ?thesis by blast
qed


subsection \<open>At most one event channel, at all times\<close>

text \<open>
  A new client has no channel, and every step of the client keeps the property that at
  most one event channel is in use: a turn of the decode loop, \<open>waitMessage\<close>,
  \<open>sendCommand\<close>, \<open>Stop\<close>, \<open>Quit\<close> and \<open>StartSync\<close>, whatever they return.
\<close>

lemma oneEventChan_cong:
  "chans c' = chans c \<Longrightarrow> eventChan c' = eventChan c \<Longrightarrow> oneEventChan c' = oneEventChan c"
  by (simp add: oneEventChan_def)

lemma oneEventChan_updates [simp]:
  "oneEventChan (c\<lparr>incoming := i\<rparr>) = oneEventChan c"
  "oneEventChan (c\<lparr>incomingMessagesChan := m\<rparr>) = oneEventChan c"
  "oneEventChan (c\<lparr>incomingMessagesError := e\<rparr>) = oneEventChan c"
  "oneEventChan (c\<lparr>statusMutex := b\<rparr>) = oneEventChan c"
  "oneEventChan (c\<lparr>trace := t\<rparr>) = oneEventChan c"
  "oneEventChan (c\<lparr>process := p\<rparr>) = oneEventChan c"
  "oneEventChan (c\<lparr>pipeWrites := w\<rparr>) = oneEventChan c"
  "oneEventChan (c\<lparr>written := s\<rparr>) = oneEventChan c"
  "oneEventChan (c\<lparr>outgoingCommandsPipe := o'\<rparr>) = oneEventChan c"
  by (rule oneEventChan_cong; simp)+

lemma Lock_same:
  "Lock c = Inr c' \<Longrightarrow> chans c' = chans c \<and> eventChan c' = eventChan c"
  by (auto simp: Lock_def split: if_splits)

lemma Unlock_same:
  "Unlock c = Inr c' \<Longrightarrow> chans c' = chans c \<and> eventChan c' = eventChan c"
  by (auto simp: Unlock_def split: if_splits)

lemma killProcess_same:
  "killProcess c = Inr c' \<Longrightarrow> chans c' = chans c \<and> eventChan c' = eventChan c"
  by (auto simp: killProcess_def Lock_def Unlock_def split: if_splits option.splits)

lemma killProcess_kills: "killProcess c = Inr c' \<Longrightarrow> process c' = None"
  by (auto simp: killProcess_def Lock_def Unlock_def split: if_splits option.splits)

lemma chanSend_inv:
  assumes "chanSend ch ev c = Inr c'" and "oneEventChan c"
  shows "oneEventChan c'"
proof -
  from assms(1) have ch: "ch < length (chans c)"
    and c': "c' = c\<lparr>chans := (chans c)[ch := (chans c ! ch)\<lparr>sent := sent (chans c ! ch) @ [ev]\<rparr>],
                  trace := trace c @ [ChanSend ch ev]\<rparr>"
    by (simp_all add: chanSend_def split: if_splits)
  have len: "length (chans c') = length (chans c)" and ec: "eventChan c' = eventChan c"
    by (simp_all add: c')
  have cl: "closed (chans c' ! x) = closed (chans c ! x)" if "x < length (chans c)" for x
    using that by (cases "x = ch") (simp_all add: c')
  show ?thesis
    using assms(2) unfolding oneEventChan_def len ec by (metis cl)
qed

lemma stopSync_inv:
  assumes "stopSync c = Inr c'" and "oneEventChan c"
  shows "oneEventChan c' \<and> eventChan c' = None"
proof (cases "eventChan c")
  case None
  with assms show ?thesis by (simp add: stopSync_None)
next
  case (Some ch)
  with assms(2) have "ch < length (chans c)" "\<not> closed (chans c ! ch)"
    and "\<forall>x < length (chans c). x \<noteq> ch \<longrightarrow> closed (chans c ! x)"
    by (auto simp: oneEventChan_def)
  with assms(1) Some show ?thesis
    by (auto simp: stopSync_Some oneEventChan_def nth_list_update split: if_splits)
qed

lemma andThen_InrE:
  assumes "andThen r f = Inr y"
  obtains x where "r = Inr x" and "f x = Inr y"
  using assms by (cases r) (simp_all add: andThen_def)

lemma closeAndReportError_inv:
  assumes "closeAndReportError err c = Inr c'" and "oneEventChan c"
  shows "oneEventChan c'"
proof -
  from assms(1)[unfolded closeAndReportError_def] obtain c1 where s1: "Lock c = Inr c1"
    and r1: "andThen (Unlock (c1\<lparr>incomingMessagesError := err\<rparr>)) (\<lambda>c2.
     andThen (stopSync c2) (\<lambda>c3.
     andThen (killProcess c3) (\<lambda>c4.
     Inr (c4\<lparr>incomingMessagesChan := Some True\<rparr>)))) = Inr c'"
    by (rule andThen_InrE)
  from r1 obtain c2 where s2: "Unlock (c1\<lparr>incomingMessagesError := err\<rparr>) = Inr c2"
    and r2: "andThen (stopSync c2) (\<lambda>c3.
     andThen (killProcess c3) (\<lambda>c4.
     Inr (c4\<lparr>incomingMessagesChan := Some True\<rparr>))) = Inr c'"
    by (rule andThen_InrE)
  from r2 obtain c3 where s3: "stopSync c2 = Inr c3"
    and r3: "andThen (killProcess c3) (\<lambda>c4.
     Inr (c4\<lparr>incomingMessagesChan := Some True\<rparr>)) = Inr c'"
    by (rule andThen_InrE)
  from r3 obtain c4 where s4: "killProcess c3 = Inr c4"
    and s5: "Inr (c4\<lparr>incomingMessagesChan := Some True\<rparr>) = (Inr c' :: panic + Client)"
    by (rule andThen_InrE)
  from Lock_same[OF s1] Unlock_same[OF s2] have "chans c2 = chans c" "eventChan c2 = eventChan c"
    by simp_all
  from oneEventChan_cong[OF this] assms(2) have "oneEventChan c2" by simp
  from stopSync_inv[OF s3 this] have i3: "oneEventChan c3" by simp
  from s5 have c': "c' = c4\<lparr>incomingMessagesChan := Some True\<rparr>" by simp
  have "chans c' = chans c3" "eventChan c' = eventChan c3"
    using killProcess_same[OF s4] by (simp_all add: c')
  from oneEventChan_cong[OF this] i3 show ?thesis by simp
qed

lemma forwardEvent_inv:
  assumes "forwardEvent ty msg c = Inr (d, c')" and "oneEventChan c"
  shows "oneEventChan c'"
proof (cases "Port msg = None")
  case True
  with assms(1) have "andThen (closeAndReportError
      (Some (''invalid '' @ [CHR 0x27] @ ty @ [CHR 0x27] @ '' message: missing port'')) c)
      (\<lambda>c'. Inr (Stopped, c')) = Inr (d, c')"
    by (simp add: forwardEvent_def)
  then obtain c1 where "closeAndReportError
      (Some (''invalid '' @ [CHR 0x27] @ ty @ [CHR 0x27] @ '' message: missing port'')) c = Inr c1"
    and "Inr (Stopped, c1) = (Inr (d, c') :: panic + decoded \<times> Client)"
    by (rule andThen_InrE)
  then have "closeAndReportError
      (Some (''invalid '' @ [CHR 0x27] @ ty @ [CHR 0x27] @ '' message: missing port'')) c = Inr c'"
    by simp
  from closeAndReportError_inv[OF this assms(2)] show ?thesis .
next
  case False
  with assms(1) have "andThen (Lock c) (\<lambda>c1.
        andThen (case eventChan c1 of
                   None \<Rightarrow> Inr c1
                 | Some ch \<Rightarrow> chanSend ch (Event ty (Port msg) (discoveryID c1)) c1) (\<lambda>c2.
        andThen (Unlock c2) (\<lambda>c3. Inr (Skipped, c3)))) = Inr (d, c')"
    by (simp add: forwardEvent_def)
  then obtain c1 where s1: "Lock c = Inr c1"
    and r1: "andThen (case eventChan c1 of
                   None \<Rightarrow> Inr c1
                 | Some ch \<Rightarrow> chanSend ch (Event ty (Port msg) (discoveryID c1)) c1) (\<lambda>c2.
        andThen (Unlock c2) (\<lambda>c3. Inr (Skipped, c3))) = Inr (d, c')"
    by (rule andThen_InrE)
  from r1 obtain c2 where s2: "(case eventChan c1 of None \<Rightarrow> Inr c1
      | Some ch \<Rightarrow> chanSend ch (Event ty (Port msg) (discoveryID c1)) c1) = Inr c2"
    and r2: "andThen (Unlock c2) (\<lambda>c3. Inr (Skipped, c3)) = Inr (d, c')"
    by (rule andThen_InrE)
  from r2 obtain c3 where s3: "Unlock c2 = Inr c3"
    and s4: "Inr (Skipped, c3) = (Inr (d, c') :: panic + decoded \<times> Client)"
    by (rule andThen_InrE)
  from Lock_same[OF s1] have "chans c1 = chans c" "eventChan c1 = eventChan c" by simp_all
  from oneEventChan_cong[OF this] assms(2) have i1: "oneEventChan c1" by simp
  have "oneEventChan c2"
  proof (cases "eventChan c1")
    case None
    with s2 i1 show ?thesis by simp
  next
    case (Some ch)
    with s2 have "chanSend ch (Event ty (Port msg) (discoveryID c1)) c1 = Inr c2" by simp
    from chanSend_inv[OF this i1] show ?thesis .
  qed
  moreover from s4 have "c' = c3" by simp
  then have "chans c' = chans c2" "eventChan c' = eventChan c2"
    using Unlock_same[OF s3] by simp_all
  note oneEventChan_cong[OF this]
  ultimately show ?thesis by simp
qed

lemma decodeStep_inv:
  assumes "decodeStep r c = Inr (d, c')" and "oneEventChan c"
  shows "oneEventChan c'"
proof (cases r)
  case (Decoded msg)
  with assms show ?thesis
    by (auto simp: decodeStep_def split: if_splits dest: forwardEvent_inv)
next
  case DecodeEOF
  with assms show ?thesis
    by (auto simp: decodeStep_def andThen_Inr_iff dest: closeAndReportError_inv)
next
  case (DecodeError e)
  with assms show ?thesis
    by (auto simp: decodeStep_def andThen_Inr_iff dest: closeAndReportError_inv)
qed

lemma waitLoop_inv:
  "waitLoop rs c = Inr (r, c') \<Longrightarrow> oneEventChan c \<Longrightarrow> oneEventChan c'"
proof (induction rs arbitrary: c)
  case Nil
  then show ?case by auto
next
  case (Cons x xs)
  have i: "oneEventChan (c\<lparr>incoming := xs\<rparr>)"
    using Cons.prems(2) by simp
  show ?case
  proof (cases "decodeStep x (c\<lparr>incoming := xs\<rparr>)")
    case (Inl p)
    with Cons.prems show ?thesis
      by (cases p) auto
  next
    case (Inr res)
    obtain d c1 where res: "res = (d, c1)" by (cases res)
    from decodeStep_inv[OF Inr[unfolded res] i] have i1: "oneEventChan c1" .
    show ?thesis
    proof (cases d)
      case (Forwarded m)
      with Cons.prems(1) Inr res i1 show ?thesis by simp
    next
      case Skipped
      with Cons.prems(1) Inr res have "waitLoop xs c1 = Inr (r, c')" by simp
      from Cons.IH[OF this i1] show ?thesis .
    next
      case Stopped
      with Cons.prems(1) Inr res i1 show ?thesis by simp
    qed
  qed
qed

lemma waitMessage_inv:
  assumes "waitMessage c = Inr (r, c')" and "oneEventChan c"
  shows "oneEventChan c'"
proof (cases "incomingMessagesChan c")
  case None
  with assms show ?thesis by (simp add: waitMessage_def)
next
  case (Some b)
  with assms show ?thesis
    by (cases b) (auto simp: waitMessage_def dest: waitLoop_inv)
qed

lemma sendCommand_inv:
  assumes "sendCommand cmd c = Inr (e, c')" and "oneEventChan c"
  shows "oneEventChan c'"
  using sendCommand_fields[OF assms(1)] assms(2) oneEventChan_cong[of c' c] by simp

lemma NewClient_inv: "oneEventChan (NewClient ident args l)"
  unfolding oneEventChan_def by (simp add: NewClient_def)

lemma Client_Stop_inv:
  assumes "Client_Stop U c = Inr (e, c')" and "oneEventChan c"
  shows "oneEventChan c'"
proof -
  from assms(1) obtain e1 c1 where s: "sendCommand ''STOP\<newline>'' c = Inr (e1, c1)"
    by (auto simp: Client_Stop_def andThen_Inr_iff)
  from sendCommand_inv[OF s assms(2)] have i1: "oneEventChan c1" .
  show ?thesis
  proof (cases e1)
    case (Some a)
    with assms(1) s i1 show ?thesis by (simp add: Client_Stop_def)
  next
    case None
    with assms(1) s obtain r c2 e2 where w: "waitMessage c1 = Inr (r, c2)"
      and k: "checkReply U ''STOP'' ''event'' ''stop'' r = Inr e2"
      and rest: "(if e2 \<noteq> None then Inr (e2, c2)
                      else andThen (Lock c2) (\<lambda>c3.
                           andThen (stopSync c3) (\<lambda>c4.
                           andThen (Unlock c4) (\<lambda>c5. Inr (None, c5))))) = Inr (e, c')"
      by (auto simp: Client_Stop_def andThen_Inr_iff)
    from waitMessage_inv[OF w i1] have i2: "oneEventChan c2" .
    show ?thesis
    proof (cases e2)
      case (Some a)
      with rest i2 show ?thesis by simp
    next
      case None
      with rest obtain c3 c4 where t: "Lock c2 = Inr c3" "stopSync c3 = Inr c4" "Unlock c4 = Inr c'"
        by (auto simp: andThen_Inr_iff)
      from Lock_same[OF t(1)] i2 oneEventChan_cong[of c3 c2] have "oneEventChan c3" by simp
      from stopSync_inv[OF t(2) this] have "oneEventChan c4" by simp
      with Unlock_same[OF t(3)] oneEventChan_cong[of c' c4] show ?thesis by simp
    qed
  qed
qed

lemma Client_Quit_inv:
  assumes "Client_Quit c = Inr c'" and "oneEventChan c"
  shows "oneEventChan c' \<and> eventChan c' = None \<and> process c' = None"
proof -
  from assms(1) obtain e1 c1 r c2 c3 where s: "sendCommand ''QUIT\<newline>'' c = Inr (e1, c1)"
    "waitMessage c1 = Inr (r, c2)" "stopSync c2 = Inr c3" "killProcess c3 = Inr c'"
    by (auto simp: Client_Quit_def andThen_Inr_iff)
  from sendCommand_inv[OF s(1) assms(2)] have "oneEventChan c1" .
  from waitMessage_inv[OF s(2) this] have "oneEventChan c2" .
  from stopSync_inv[OF s(3) this] have "oneEventChan c3" "eventChan c3 = None" by simp_all
  with killProcess_same[OF s(4)] killProcess_kills[OF s(4)] oneEventChan_cong[of c' c3]
  show ?thesis by simp
qed

lemma install_inv:
  assumes "oneEventChan c" and "eventChan c = None"
  shows "oneEventChan (c\<lparr>chans := chans c @ [\<lparr>sent = [], capacity = sz, closed = False\<rparr>],
                        eventChan := Some (length (chans c))\<rparr>)"
proof -
  from assms have "\<forall>ch < length (chans c). closed (chans c ! ch)"
    unfolding oneEventChan_def by auto
  then show ?thesis
    unfolding oneEventChan_def by (auto simp: nth_append less_Suc_eq)
qed

lemma unlocking_same:
  "unlocking res c = Inr (res', c') \<Longrightarrow> chans c' = chans c \<and> eventChan c' = eventChan c"
  by (auto simp: unlocking_def Unlock_def split: if_splits)

lemma Client_StartSync_inv:
  assumes "Client_StartSync U sz c = Inr (res, c')" and "oneEventChan c"
  shows "oneEventChan c'"
proof -
  from assms(1)[unfolded Client_StartSync_def] obtain c0 where s0: "Lock c = Inr c0"
    and r0: "andThen (sendCommand ''START_SYNC\<newline>'' c0)
       (\<lambda>(err, c1).
          if err \<noteq> None then unlocking (None, err) c1
          else andThen (waitMessage c1)
            (\<lambda>(r, c2).
               andThen (checkReply U ''START_SYNC'' ''evemt'' ''start_sync'' r)
                 (\<lambda>e. if e \<noteq> None then unlocking (None, e) c2
                      else andThen (stopSync c2) (\<lambda>c3.
                           if sz < 0 then Inl MakeChanSize
                           else unlocking (Some (length (chans c3)), None)
                                  (c3\<lparr>chans := chans c3 @ [\<lparr>sent = [], capacity = sz, closed = False\<rparr>],
                                      eventChan := Some (length (chans c3))\<rparr>))))) = Inr (res, c')"
    by (rule andThen_InrE)
  from Lock_same[OF s0] oneEventChan_cong[of c0 c] assms(2) have i0: "oneEventChan c0" by simp
  from r0 obtain x1 where s1: "sendCommand ''START_SYNC\<newline>'' c0 = Inr x1"
    and r1: "(case x1 of (err, c1) \<Rightarrow>
          if err \<noteq> None then unlocking (None, err) c1
          else andThen (waitMessage c1)
            (\<lambda>(r, c2).
               andThen (checkReply U ''START_SYNC'' ''evemt'' ''start_sync'' r)
                 (\<lambda>e. if e \<noteq> None then unlocking (None, e) c2
                      else andThen (stopSync c2) (\<lambda>c3.
                           if sz < 0 then Inl MakeChanSize
                           else unlocking (Some (length (chans c3)), None)
                                  (c3\<lparr>chans := chans c3 @ [\<lparr>sent = [], capacity = sz, closed = False\<rparr>],
                                      eventChan := Some (length (chans c3))\<rparr>))))) = Inr (res, c')"
    by (rule andThen_InrE)
  obtain e1 c1 where x1: "x1 = (e1, c1)" by (cases x1)
  from sendCommand_inv[OF s1[unfolded x1] i0] have i1: "oneEventChan c1" .
  show ?thesis
  proof (cases e1)
    case (Some a)
    with r1 x1 have "unlocking (None, e1) c1 = Inr (res, c')" by simp
    from unlocking_same[OF this] oneEventChan_cong[of c' c1] i1 show ?thesis by simp
  next
    case None
    with r1 x1 have "andThen (waitMessage c1)
            (\<lambda>(r, c2).
               andThen (checkReply U ''START_SYNC'' ''evemt'' ''start_sync'' r)
                 (\<lambda>e. if e \<noteq> None then unlocking (None, e) c2
                      else andThen (stopSync c2) (\<lambda>c3.
                           if sz < 0 then Inl MakeChanSize
                           else unlocking (Some (length (chans c3)), None)
                                  (c3\<lparr>chans := chans c3 @ [\<lparr>sent = [], capacity = sz, closed = False\<rparr>],
                                      eventChan := Some (length (chans c3))\<rparr>)))) = Inr (res, c')"
      by simp
    then obtain x2 where s2: "waitMessage c1 = Inr x2"
      and r2: "(case x2 of (r, c2) \<Rightarrow>
               andThen (checkReply U ''START_SYNC'' ''evemt'' ''start_sync'' r)
                 (\<lambda>e. if e \<noteq> None then unlocking (None, e) c2
                      else andThen (stopSync c2) (\<lambda>c3.
                           if sz < 0 then Inl MakeChanSize
                           else unlocking (Some (length (chans c3)), None)
                                  (c3\<lparr>chans := chans c3 @ [\<lparr>sent = [], capacity = sz, closed = False\<rparr>],
                                      eventChan := Some (length (chans c3))\<rparr>)))) = Inr (res, c')"
      by (rule andThen_InrE)
    obtain r c2 where x2: "x2 = (r, c2)" by (cases x2)
    from waitMessage_inv[OF s2[unfolded x2] i1] have i2: "oneEventChan c2" .
    from r2 x2 obtain e2 where "checkReply U ''START_SYNC'' ''evemt'' ''start_sync'' r = Inr e2"
      and r3: "(if e2 \<noteq> None then unlocking (None, e2) c2
                      else andThen (stopSync c2) (\<lambda>c3.
                           if sz < 0 then Inl MakeChanSize
                           else unlocking (Some (length (chans c3)), None)
                                  (c3\<lparr>chans := chans c3 @ [\<lparr>sent = [], capacity = sz, closed = False\<rparr>],
                                      eventChan := Some (length (chans c3))\<rparr>))) = Inr (res, c')"
      by (auto elim: andThen_InrE)
    show ?thesis
    proof (cases e2)
      case (Some a)
      with r3 have "unlocking (None, e2) c2 = Inr (res, c')" by simp
      from unlocking_same[OF this] oneEventChan_cong[of c' c2] i2 show ?thesis by simp
    next
      case None
      with r3 obtain c3 where s3: "stopSync c2 = Inr c3"
        and r4: "(if sz < 0 then Inl MakeChanSize
                           else unlocking (Some (length (chans c3)), None)
                                  (c3\<lparr>chans := chans c3 @ [\<lparr>sent = [], capacity = sz, closed = False\<rparr>],
                                      eventChan := Some (length (chans c3))\<rparr>)) = Inr (res, c')"
        by (auto elim: andThen_InrE)
      from stopSync_inv[OF s3 i2] have i3: "oneEventChan c3" "eventChan c3 = None" by simp_all
      let ?c = "c3\<lparr>chans := chans c3 @ [\<lparr>sent = [], capacity = sz, closed = False\<rparr>],
                                      eventChan := Some (length (chans c3))\<rparr>"
      from r4 have "unlocking (Some (length (chans c3)), None) ?c = Inr (res, c')"
        by (simp split: if_splits)
      from unlocking_same[OF this] oneEventChan_cong[of c' ?c] install_inv[OF i3, of sz]
      show ?thesis by simp
    qed
  qed
qed


subsection \<open>The event channel\<close>

text \<open>
  C10. Let at most one event channel be in use, and let \<open>StartSync\<close> succeed. Then
  the channel it returns is new; the channel that was installed before, if any, has
  received the \<open>stop\<close> event and has been closed, by \<open>stopSync\<close> under the mutex
  and before the new channel exists, though neither \<open>Stop\<close> nor \<open>Quit\<close> was called
  nor did the decode loop end; the new channel is empty, open, of the capacity asked for,
  and installed; and again at most one event channel is in use. And \<open>stopSync\<close> does
  nothing when no event channel is installed.
\<close>

theorem C10_start_sync_replaces_event_channel:
  assumes "oneEventChan c" and "Client_StartSync U sz c = Inr ((Some new, None), c')"
  shows "new = length (chans c) \<and> eventChan c' = Some new
     \<and> chans c' =
         (case eventChan c of
            None \<Rightarrow> chans c
          | Some old \<Rightarrow> (chans c)[old := (chans c ! old)
              \<lparr>sent := sent (chans c ! old) @ [Event ''stop'' None (discoveryID c)], closed := True\<rparr>])
         @ [\<lparr>sent = [], capacity = sz, closed = False\<rparr>]
     \<and> trace c' =
         trace c @ [Acquire]
         @ (case eventChan c of
              None \<Rightarrow> []
            | Some old \<Rightarrow> [ChanSend old (Event ''stop'' None (discoveryID c)), ChanClose old])
         @ [Release]
     \<and> oneEventChan c'
     \<and> (\<forall>k. eventChan k = None \<longrightarrow> stopSync k = Inr k)"
proof -
  from StartSync_success[OF assms(2)] obtain c2 c3 where
    c2: "statusMutex c2" "chans c2 = chans c" "eventChan c2 = eventChan c"
      "discoveryID c2 = discoveryID c" "trace c2 = trace c @ [Acquire]"
    and st: "stopSync c2 = Inr c3" and new: "new = length (chans c3)"
    and u: "Unlock (c3\<lparr>chans := chans c3 @ [\<lparr>sent = [], capacity = sz, closed = False\<rparr>],
                      eventChan := Some (length (chans c3))\<rparr>) = Inr c'"
    by blast
  let ?new = "\<lparr>sent = [], capacity = sz, closed = False\<rparr>"
  have noop: "\<forall>k. eventChan k = None \<longrightarrow> stopSync k = Inr k"
    by (simp add: stopSync_None)
  show ?thesis
  proof (cases "eventChan c")
    case None
    with c2 st have c3: "c3 = c2" by (simp add: stopSync_None)
    from u c3 c2 have c': "c' = c2\<lparr>chans := chans c @ [?new], eventChan := Some (length (chans c)),
        statusMutex := False, trace := trace c @ [Acquire, Release]\<rparr>"
      by (simp add: Unlock_def)
    from assms(1) None have allclosed: "\<forall>ch < length (chans c). closed (chans c ! ch)"
      by (auto simp: oneEventChan_def)
    have "oneEventChan c'"
      unfolding oneEventChan_def c' using allclosed
      by (auto simp: nth_append less_Suc_eq)
    with None new c3 c2 c' noop show ?thesis by simp
  next
    case (Some old)
    with assms(1) have old: "old < length (chans c)" "\<not> closed (chans c ! old)"
      and others: "\<forall>ch < length (chans c). ch \<noteq> old \<longrightarrow> closed (chans c ! ch)"
      by (auto simp: oneEventChan_def)
    let ?stop = "Event ''stop'' None (discoveryID c)"
    let ?chans = "(chans c)[old := (chans c ! old)\<lparr>sent := sent (chans c ! old) @ [?stop], closed := True\<rparr>]"
    from stopSync_Some[of c2 old] Some c2 old st
    have c3: "c3 = c2\<lparr>chans := ?chans, trace := trace c @ [Acquire, ChanSend old ?stop, ChanClose old],
        eventChan := None\<rparr>"
      by simp
    from u c3 c2 have c': "c' = c2\<lparr>chans := ?chans @ [?new], eventChan := Some (length (chans c)),
        statusMutex := False,
        trace := trace c @ [Acquire, ChanSend old ?stop, ChanClose old, Release]\<rparr>"
      by (simp add: Unlock_def)
    have "oneEventChan c'"
      unfolding oneEventChan_def c' using others old
      by (auto simp: nth_append nth_list_update less_Suc_eq)
    with Some new c3 c' noop show ?thesis by simp
  qed
qed

theorem C10_start_sync_replaces_event_channel_witness:
  "1 = length (chans (syncClient\<lparr>pipeWrites := [(11, None)], incoming := [Decoded (messageOk ''start_sync'')]\<rparr>))
   \<and> oneEventChan (syncClient
       \<lparr>pipeWrites := [], written := ''START_SYNC\<newline>'', incoming := [],
        chans := [\<lparr>sent = [Event ''stop'' None ''1''], capacity = 20, closed = True\<rparr>,
                  \<lparr>sent = [], capacity = 5, closed = False\<rparr>],
        eventChan := Some 1,
        trace := [Acquire, ChanSend 0 (Event ''stop'' None ''1''), ChanClose 0, Release]\<rparr>)"
proof -
  let ?c = "syncClient\<lparr>pipeWrites := [(11, None)], incoming := [Decoded (messageOk ''start_sync'')]\<rparr>"
  let ?c' = "syncClient
       \<lparr>pipeWrites := [], written := ''START_SYNC\<newline>'', incoming := [],
        chans := [\<lparr>sent = [Event ''stop'' None ''1''], capacity = 20, closed = True\<rparr>,
                  \<lparr>sent = [], capacity = 5, closed = False\<rparr>],
        eventChan := Some 1,
        trace := [Acquire, ChanSend 0 (Event ''stop'' None ''1''), ChanClose 0, Release]\<rparr>"
  have h1: "oneEventChan ?c"
    by (simp add: oneEventChan_def syncClient_def)
  have h2: "Client_StartSync asciiToUpper 5 ?c = Inr ((Some 1, None), ?c')"
    by (simp add: Client_StartSync_def syncClient_def NewClient_def Lock_def Unlock_def
        sendCommand_def waitMessage_def decodeStep_def checkReply_def messageOk_def
        asciiToUpper_def stopSync_def chanSend_def chanClose_def unlocking_def)
  from C10_start_sync_replaces_event_channel [OF h1 h2] show ?thesis by (simp add: syncClient_def NewClient_def)
qed

subsection \<open>The decode loop and the mutex\<close>

text \<open>
  C7, as the code has it. The claim reads: the decode loop sends an event on the event
  channel without holding the status mutex, which it takes only to read the slot. The
  loop takes the mutex, reads the slot, sends on the channel and only then gives the mutex
  back: for an \<open>add\<close> or \<open>remove\<close> message with a port, a free mutex and an open
  event channel installed, the actions of the turn are \<open>Acquire\<close>, the send,
  \<open>Release\<close>, in this order.
\<close>

theorem C7_event_sent_under_mutex:
  assumes "EventType msg = ''add'' \<or> EventType msg = ''remove''"
    and "Port msg = Some p"
    and "\<not> statusMutex c"
    and "eventChan c = Some ch" "ch < length (chans c)" "\<not> closed (chans c ! ch)"
  shows "\<exists>c'. decodeStep (Decoded msg) c = Inr (Skipped, c')
     \<and> trace c' = trace c @ [Acquire, ChanSend ch (Event (EventType msg) (Some p) (discoveryID c)), Release]
     \<and> sent (chans c' ! ch) = sent (chans c ! ch) @ [Event (EventType msg) (Some p) (discoveryID c)]
     \<and> \<not> statusMutex c'"
  using assms
  by (auto simp: decodeStep_def forwardEvent_def Lock_def Unlock_def chanSend_def)


theorem C7_event_sent_under_mutex_witness:
  "\<exists>c'. decodeStep (Decoded addMessage) syncClient = Inr (Skipped, c')
     \<and> trace c' = trace syncClient @ [Acquire, ChanSend 0 (Event (EventType addMessage) (Some (createDummyPort ''1'')) (discoveryID syncClient)), Release]
     \<and> sent (chans c' ! 0) = sent (chans syncClient ! 0) @ [Event (EventType addMessage) (Some (createDummyPort ''1'')) (discoveryID syncClient)]
     \<and> \<not> statusMutex c'"
proof -
  have h1: "EventType addMessage = ''add'' \<or> EventType addMessage = ''remove''"
    by (simp add: addMessage_def)
  have h2: "Port addMessage = Some (createDummyPort ''1'')" by (simp add: addMessage_def)
  have h3: "\<not> statusMutex syncClient" by (simp add: syncClient_def NewClient_def)
  have h4: "eventChan syncClient = Some 0" by (simp add: syncClient_def)
  have h5: "0 < length (chans syncClient)" by (simp add: syncClient_def)
  have h6: "\<not> closed (chans syncClient ! 0)" by (simp add: syncClient_def)
  show ?thesis by (rule C7_event_sent_under_mutex [OF h1 h2 h3 h4 h5 h6])
qed


text \<open>
  C7, as the claim states it, fails: on the client in event mode the \<open>add\<close> message is
  sent on channel 0 between \<open>Acquire\<close> and \<open>Release\<close>, that is, with the mutex
  held.
\<close>

theorem C7_send_without_mutex_counterexample:
  "decodeStep (Decoded addMessage) syncClient =
     Inr (Skipped, syncClient
       \<lparr>chans := [\<lparr>sent = [Event ''add'' (Some (createDummyPort ''1'')) ''1''], capacity = 20, closed = False\<rparr>],
        trace := [Acquire, ChanSend 0 (Event ''add'' (Some (createDummyPort ''1'')) ''1''), Release]\<rparr>)"
  by (simp add: decodeStep_def forwardEvent_def Lock_def Unlock_def chanSend_def addMessage_def
      syncClient_def NewClient_def)


subsection \<open>The handshake\<close>

text \<open>
  What \<open>Run\<close> does once the child has started, by what comes back. A command that
  is sent without error has been written whole. On a reply \<open>Run\<close> returns nil exactly
  for a \<open>hello\<close> without error flag, with message \<open>OK\<close> in any case of letters and
  a protocol version of at most 1, and else kills the child and returns an error; so it
  does when sending fails or \<open>waitMessage\<close> returns an error. When the decode loop
  reads end of file while the mutex is free, \<open>waitMessage\<close> returns neither message nor
  error, and \<open>Run\<close> panics.
\<close>

lemma sendLoop_written:
  "sendLoop data ws c = Inr (None, c') \<Longrightarrow> written c' = written c @ data"
proof (induction data ws c rule: sendLoop.induct)
  case (1 data c)
  then show ?case by simp
next
  case (2 data n err ws c)
  let ?c1 = "c\<lparr>pipeWrites := ws, written := written c @ take (nat n) data\<rparr>"
  from "2.prems" have e: "err = None" by (auto simp: Let_def split: if_splits)
  show ?case
  proof (cases "n = int (length data)")
    case True
    with "2.prems" e show ?thesis by (auto simp: Let_def)
  next
    case False
    with "2.prems" e have ok: "\<not> (n < 0 \<or> int (length data) < n)"
      and rec: "sendLoop (drop (nat n) data) ws ?c1 = Inr (None, c')"
      by (auto simp: Let_def split: if_splits)
    from "2.IH"[OF refl _ False ok rec] e have "written c' = written ?c1 @ drop (nat n) data"
      by simp
    then show ?thesis by simp
  qed
qed

lemma closeAndReportError_free:
  assumes "\<not> statusMutex c" and "oneEventChan c"
  shows "\<exists>c'. closeAndReportError err c = Inr c' \<and> incomingMessagesError c' = err"
proof -
  let ?c1 = "c\<lparr>statusMutex := True, trace := trace c @ [Acquire]\<rparr>"
  have l: "Lock c = Inr ?c1" using assms(1) by (simp add: Lock_def)
  obtain c2 where u: "Unlock (?c1\<lparr>incomingMessagesError := err\<rparr>) = Inr c2"
    and f2: "\<not> statusMutex c2" "incomingMessagesError c2 = err"
      "chans c2 = chans c" "eventChan c2 = eventChan c"
    by (simp add: Unlock_def)
  from oneEventChan_cong[OF f2(3,4)] assms(2) have i2: "oneEventChan c2" by simp
  obtain c3 where s: "stopSync c2 = Inr c3" and f: "\<not> statusMutex c3"
    "incomingMessagesError c3 = err"
  proof (cases "eventChan c2")
    case None
    then have "stopSync c2 = Inr c2" by (simp add: stopSync_None)
    with that f2 show ?thesis by simp
  next
    case (Some ch)
    with i2 have "ch < length (chans c2)" "\<not> closed (chans c2 ! ch)"
      unfolding oneEventChan_def by auto
    from stopSync_Some[OF Some this] that f2 show ?thesis by simp
  qed
  from f have "\<exists>c4. killProcess c3 = Inr c4 \<and> incomingMessagesError c4 = err"
    by (auto simp: killProcess_def Lock_def Unlock_def split: option.splits)
  then obtain c4 where k: "killProcess c3 = Inr c4" "incomingMessagesError c4 = err" by blast
  have "closeAndReportError err c = Inr (c4\<lparr>incomingMessagesChan := Some True\<rparr>)"
    unfolding closeAndReportError_def by (simp only: l u s k(1) andThen_Inr)
  with k(2) show ?thesis by simp
qed

lemma waitMessage_eof:
  assumes "incomingMessagesChan c = Some False" and "incoming c = DecodeEOF # rs"
    and "\<not> statusMutex c" and "oneEventChan c"
  shows "\<exists>c'. waitMessage c = Inr ((None, None), c')"
proof -
  have "\<not> statusMutex (c\<lparr>incoming := rs\<rparr>)" "oneEventChan (c\<lparr>incoming := rs\<rparr>)"
    using assms(3,4) by simp_all
  from closeAndReportError_free[OF this, of None] obtain c' where
    "closeAndReportError None (c\<lparr>incoming := rs\<rparr>) = Inr c'" "incomingMessagesError c' = None"
    by blast
  then show ?thesis
    using assms(1,2) by (simp add: waitMessage_def decodeStep_def)
qed

lemma Client_Run_nil_reply:
  assumes "runProcess c = Inr (None, c1)"
    and "sendCommand (helloCommand c1) c1 = Inr (None, c2)"
    and "waitMessage c2 = Inr ((None, None), c3)"
  shows "Client_Run U c = Inl NilDereference"
  using assms by (simp add: Client_Run_def handshake_def checkReply_def)

lemma Client_Run_on_reply:
  assumes "runProcess c = Inr (None, c1)"
    and "sendCommand (helloCommand c1) c1 = Inr (None, c2)"
    and "waitMessage c2 = Inr ((Some msg, None), c3)"
  shows "if EventType msg = ''hello'' \<and> \<not> Error msg \<and> U (Message msg) = ''OK''
            \<and> ProtocolVersion msg \<le> 1
         then Client_Run U c = Inr (None, c3)
         else \<exists>err. Client_Run U c = andThen (killProcess c3) (\<lambda>c4. Inr (Some err, c4))"
  using assms by (auto simp: Client_Run_def handshake_def checkReply_def)

lemma Client_Run_on_wait_error:
  assumes "runProcess c = Inr (None, c1)"
    and "sendCommand (helloCommand c1) c1 = Inr (None, c2)"
    and "waitMessage c2 = Inr ((m, Some err), c3)"
  shows "Client_Run U c = andThen (killProcess c3) (\<lambda>c4. Inr (Some (''calling HELLO: '' @ err), c4))"
  using assms by (cases m) (simp_all add: Client_Run_def handshake_def checkReply_def)

lemma Client_Run_on_send_error:
  assumes "runProcess c = Inr (None, c1)"
    and "sendCommand (helloCommand c1) c1 = Inr (Some err, c2)"
  shows "Client_Run U c = andThen (killProcess c2) (\<lambda>c4. Inr (Some err, c4))"
  using assms by (simp add: Client_Run_def handshake_def)

text \<open>
  C6. The claim: \<open>Run\<close> fails exactly when the reply is not a good \<open>hello\<close> or
  sending or waiting fails, and then the child is killed before \<open>Run\<close> returns. When
  the child takes the \<open>HELLO\<close> line and exits without an answer, the decode loop reads
  end of file, records no error (nil) and closes the channel; \<open>waitMessage\<close> then
  returns neither a message nor an error, and \<open>Run\<close> reads \<open>msg.EventType\<close>
  through the nil message: it panics where the claim has it return an error.
\<close>

theorem C6_run_panics_when_child_exits:
  "Client_Run asciiToUpper crashingClient = Inl NilDereference"
  by (simp add: Client_Run_def crashingClient_def NewClient_def runProcess_def Lock_def Unlock_def
      handshake_def helloCommand_def sendCommand_def waitMessage_def decodeStep_def
      closeAndReportError_def stopSync_def killProcess_def checkReply_def)

section \<open>Theorems about ports\<close>

lemma loadPort_valid: "a < length (portObjs h) \<Longrightarrow> loadPort h (Some a) = Inr (portObjs h ! a)"
  by (simp add: loadPort_def)


text \<open>
  C9. For pointers \<open>p\<close> and \<open>q\<close> to ports, \<open>p.Equals(q)\<close> is true exactly when the
  two ports have the same \<open>Address\<close> and the same \<open>Protocol\<close>, whatever the other
  fields. For a pointer \<open>p\<close> to a port (whose properties, if any, are on the heap),
  \<open>p.Clone()\<close> returns a pointer \<open>c\<close> to a new object, other than \<open>p\<close>; the clone
  has the fields of \<open>p\<close> and properties with the same entries; \<open>p\<close> is as it was;
  the properties of the clone are an object of their own, so that whatever is written
  to the clone, or to the properties of the clone, \<open>p\<close> and its properties stay as they
  were.
\<close>

theorem C9_equals_and_clone:
  assumes "p < length (portObjs h)" and "q < length (portObjs h)"
    and "\<forall>m. Properties (portObjs h ! p) = Some m \<longrightarrow> m < length (mapObjs h)"
  shows "Equals h (Some p) (Some q) =
           Inr (Address (portObjs h ! p) = Address (portObjs h ! q)
                \<and> Protocol (portObjs h ! p) = Protocol (portObjs h ! q))
     \<and> (\<exists>c h'. Clone h (Some p) = Inr (Some c, h')
           \<and> c \<noteq> p \<and> c = length (portObjs h)
           \<and> portView h' c = portView h p
           \<and> portView h' p = portView h p
           \<and> (\<forall>v. portView (h'\<lparr>portObjs := (portObjs h')[c := v]\<rparr>) p = portView h p)
           \<and> (\<forall>m'. Properties (portObjs h' ! c) = Some m' \<longrightarrow>
                  Properties (portObjs h ! p) \<noteq> Some m'
                  \<and> (\<forall>kvs. portView (h'\<lparr>mapObjs := (mapObjs h')[m' := kvs]\<rparr>) p = portView h p)))"
proof -
  have eq: "Equals h (Some p) (Some q) =
           Inr (Address (portObjs h ! p) = Address (portObjs h ! q)
                \<and> Protocol (portObjs h ! p) = Protocol (portObjs h ! q))"
    using assms(1,2) by (simp add: Equals_def loadPort_valid)
  let ?v = "portObjs h ! p"
  show ?thesis
  proof (cases "Properties ?v")
    case None
    let ?h' = "h\<lparr>portObjs := portObjs h @ [?v]\<rparr>"
    have "Clone h (Some p) = Inr (Some (length (portObjs h)), ?h')"
      using assms(1) None by (simp add: Clone_def loadPort_valid)
    moreover have "portView ?h' (length (portObjs h)) = portView h p"
      using None by (simp add: portView_def Let_def)
    moreover have "portView ?h' p = portView h p"
      using assms(1) by (simp add: portView_def Let_def nth_append)
    moreover have "\<forall>v. portView (?h'\<lparr>portObjs := (portObjs ?h')[length (portObjs h) := v]\<rparr>) p = portView h p"
      using assms(1) by (simp add: portView_def Let_def nth_append)
    moreover have "Properties (portObjs ?h' ! length (portObjs h)) = None"
      using None by simp
    ultimately show ?thesis using eq assms(1) by auto
  next
    case (Some m)
    with assms(3) have m: "m < length (mapObjs h)" by simp
    let ?m' = "length (mapObjs h)"
    let ?h' = "h\<lparr>mapObjs := mapObjs h @ [mapObjs h ! m],
                  portObjs := portObjs h @ [?v\<lparr>Properties := Some ?m'\<rparr>]\<rparr>"
    have "Clone h (Some p) = Inr (Some (length (portObjs h)), ?h')"
      using assms(1) Some m by (simp add: Clone_def loadPort_valid Map_Clone_def)
    moreover have "portView ?h' (length (portObjs h)) = portView h p"
      using Some m by (simp add: portView_def Let_def)
    moreover have "portView ?h' p = portView h p"
      using assms(1) Some m by (simp add: portView_def Let_def nth_append)
    moreover have "\<forall>v. portView (?h'\<lparr>portObjs := (portObjs ?h')[length (portObjs h) := v]\<rparr>) p = portView h p"
      using assms(1) Some m by (simp add: portView_def Let_def nth_append)
    moreover have "Properties (portObjs ?h' ! length (portObjs h)) = Some ?m'"
      by simp
    moreover have "Properties ?v \<noteq> Some ?m'"
      using Some m by simp
    moreover have "\<forall>kvs. portView (?h'\<lparr>mapObjs := (mapObjs ?h')[?m' := kvs]\<rparr>) p = portView h p"
      using assms(1) Some m by (simp add: portView_def Let_def nth_append)
    ultimately show ?thesis using eq assms(1) by auto
  qed
qed


theorem C9_equals_and_clone_witness:
  "Equals dummyHeap (Some 0) (Some 0) = Inr True
   \<and> (\<exists>c h'. Clone dummyHeap (Some 0) = Inr (Some c, h')
           \<and> c \<noteq> 0 \<and> c = 1
           \<and> portView h' c = portView dummyHeap 0
           \<and> portView h' 0 = portView dummyHeap 0
           \<and> (\<forall>v. portView (h'\<lparr>portObjs := (portObjs h')[c := v]\<rparr>) 0 = portView dummyHeap 0)
           \<and> (\<forall>m'. Properties (portObjs h' ! c) = Some m' \<longrightarrow>
                  Properties (portObjs dummyHeap ! 0) \<noteq> Some m'
                  \<and> (\<forall>kvs. portView (h'\<lparr>mapObjs := (mapObjs h')[m' := kvs]\<rparr>) 0 = portView dummyHeap 0)))"
proof -
  have h1: "0 < length (portObjs dummyHeap)" by (simp add: dummyHeap_def)
  have h3: "\<forall>m. Properties (portObjs dummyHeap ! 0) = Some m \<longrightarrow> m < length (mapObjs dummyHeap)"
    by (simp add: dummyHeap_def)
  have l: "length (portObjs dummyHeap) = 1" by (simp add: dummyHeap_def)
  from C9_equals_and_clone [OF h1 h1 h3] show ?thesis unfolding l by simp
qed

end
